theory Spec2Isabelle
  imports Main
begin

section \<open>Strings and characters\<close>

text \<open>
  A JavaScript string is a sequence of 16-bit code units. The model uses \<open>string\<close>
  (a list of 8-bit characters), so it covers the texts whose code units are below 256
  (ASCII and Latin-1). Character classes are the ones of the regular expressions of
  \<^verbatim>\<open>documentParser.js\<close>, cut down to that range.
\<close>

definition is_space :: "char \<Rightarrow> bool" where
  \<comment> \<open>the class \<^verbatim>\<open>\s\<close>, also what \<^verbatim>\<open>trim()\<close> removes: TAB, LF, VT, FF, CR, space, NBSP\<close>
  "is_space c \<longleftrightarrow> c \<in> {CHR 0x09, CHR 0x0A, CHR 0x0B, CHR 0x0C, CHR 0x0D, CHR '' '', CHR 0xA0}"

definition is_line_terminator :: "char \<Rightarrow> bool" where
  \<comment> \<open>what \<^verbatim>\<open>.\<close> does not match\<close>
  "is_line_terminator c \<longleftrightarrow> c = CHR 0x0A \<or> c = CHR 0x0D"

definition is_digit :: "char \<Rightarrow> bool" where
  "is_digit c \<longleftrightarrow> c \<in> set ''0123456789''"

definition is_word :: "char \<Rightarrow> bool" where
  \<comment> \<open>the class \<^verbatim>\<open>\w\<close>: \<^verbatim>\<open>[A-Za-z0-9_]\<close>\<close>
  "is_word c \<longleftrightarrow>
     is_digit c \<or> ((65::nat) \<le> of_char c \<and> (of_char c :: nat) \<le> 90)
     \<or> ((97::nat) \<le> of_char c \<and> (of_char c :: nat) \<le> 122) \<or> c = CHR ''_''"

definition lower_char :: "char \<Rightarrow> char" where
  \<comment> \<open>A-Z and the Latin-1 capitals (U+00C0 to U+00DE but U+00D7) move up by 32, which sets bit 5\<close>
  "lower_char c =
     (let n = (of_char c :: nat) in
      if (65 \<le> n \<and> n \<le> 90) \<or> (192 \<le> n \<and> n \<le> 222 \<and> n \<noteq> 215)
      then (case c of Char b0 b1 b2 b3 b4 b5 b6 b7 \<Rightarrow> Char b0 b1 b2 b3 b4 True b6 b7)
      else c)"

definition toLowerCase :: "string \<Rightarrow> string" where
  "toLowerCase s = map lower_char s"

definition trim :: "string \<Rightarrow> string" where
  "trim s = rev (dropWhile is_space (rev (dropWhile is_space s)))"

fun join :: "string \<Rightarrow> string list \<Rightarrow> string" where
  "join sep [] = []"
| "join sep [x] = x"
| "join sep (x # y # ys) = x @ sep @ join sep (y # ys)"

definition digit_char :: "nat \<Rightarrow> char" where
  "digit_char d = ''0123456789'' ! d"

function string_of_nat :: "nat \<Rightarrow> string" where
  \<comment> \<open>\<^verbatim>\<open>String(index)\<close> of an array index\<close>
  "string_of_nat n =
     (if n < 10 then [digit_char n] else string_of_nat (n div 10) @ [digit_char (n mod 10)])"
  by pat_completeness auto
termination
  by (relation "measure id") auto

declare string_of_nat.simps [simp del]

definition nat_of_digits :: "string \<Rightarrow> nat" where
  "nat_of_digits s = foldl (\<lambda>a c. 10 * a + (of_char c - 48)) 0 s"

definition is_array_index :: "string \<Rightarrow> bool" where
  \<comment> \<open>a canonical numeric string of an integer from 0 to \<open>2^32 - 2\<close>: such property
      keys are enumerated first, in ascending numeric order\<close>
  "is_array_index k \<longleftrightarrow>
     k \<noteq> [] \<and> list_all is_digit k \<and> (k = ''0'' \<or> hd k \<noteq> CHR ''0'')
     \<and> length k \<le> 10 \<and> nat_of_digits k \<le> 4294967294"

section \<open>Values and objects\<close>

text \<open>
  The values \<^verbatim>\<open>JSON.parse\<close> produces. A number is observed by this program only through
  \<^verbatim>\<open>String()\<close>, \<^verbatim>\<open>||\<close>, \<^verbatim>\<open>typeof\<close> and \<^verbatim>\<open>JSON.stringify\<close>, all of them functions of its
  canonical rendering \<^verbatim>\<open>String(n)\<close> (\<^verbatim>\<open>"0"\<close> for both zeros), so \<open>JNum\<close> carries that rendering.
  An object is the list of its own properties in enumeration order: array-index keys first,
  ascending, then the other keys in order of creation. A parsed object has the prototype
  \<^verbatim>\<open>Object.prototype\<close> and may own any key, \<^verbatim>\<open>toString\<close> and \<^verbatim>\<open>__proto__\<close> included; none of
  its values is a function.
\<close>

datatype json =
    JNull
  | JBool bool
  | JNum string
  | JStr string
  | JArr "json list"
  | JObj "(string \<times> json) list"

type_synonym entry = "(string \<times> json) list"

datatype error = TypeError | Error string

fun truthy :: "json \<Rightarrow> bool" where
  "truthy JNull = False"
| "truthy (JBool b) = b"
| "truthy (JNum r) = (r \<noteq> ''0'' \<and> r \<noteq> ''NaN'')"
| "truthy (JStr s) = (s \<noteq> [])"
| "truthy (JArr xs) = True"
| "truthy (JObj kvs) = True"

fun or_empty :: "json option \<Rightarrow> json" where
  \<comment> \<open>\<^verbatim>\<open>x || ''\<close>, where \<open>None\<close> is \<^verbatim>\<open>undefined\<close>\<close>
  "or_empty None = JStr []"
| "or_empty (Some v) = (if truthy v then v else JStr [])"

fun map_result :: "('a \<Rightarrow> error + 'b) \<Rightarrow> 'a list \<Rightarrow> error + 'b list" where
  \<comment> \<open>\<^verbatim>\<open>xs.map(f)\<close> for an \<open>f\<close> that may throw: the first exception ends the call\<close>
  "map_result f [] = Inr []"
| "map_result f (x # xs) =
     (case f x of
        Inl e \<Rightarrow> Inl e
      | Inr y \<Rightarrow> (case map_result f xs of Inl e \<Rightarrow> Inl e | Inr ys \<Rightarrow> Inr (y # ys)))"

lemma map_result_cong [fundef_cong]:
  "xs = ys \<Longrightarrow> (\<And>x. x \<in> set ys \<Longrightarrow> f x = g x) \<Longrightarrow> map_result f xs = map_result g ys"
  by (induction ys arbitrary: xs) (auto split: sum.splits)

text \<open>
  \<^verbatim>\<open>String(v)\<close>. On an object the conversion calls the method \<^verbatim>\<open>toString\<close> and, when that is
  no function or returns an object, the method \<^verbatim>\<open>valueOf\<close>. A parsed object that owns the key
  \<^verbatim>\<open>toString\<close> hides \<^verbatim>\<open>Object.prototype.toString\<close> by a value that is no function; the
  method \<^verbatim>\<open>valueOf\<close> is then no function either or the inherited one, which returns the
  object itself, and the conversion throws a \<^verbatim>\<open>TypeError\<close>. Any other object gives
  \<^verbatim>\<open>[object Object]\<close>. An array joins the conversions of its elements with a comma, null
  elements as empty, and throws when one of them does.
\<close>

fun js_String :: "json \<Rightarrow> error + string" where
  "js_String JNull = Inr ''null''"
| "js_String (JBool b) = Inr (if b then ''true'' else ''false'')"
| "js_String (JNum r) = Inr r"
| "js_String (JStr s) = Inr s"
| "js_String (JArr xs) =
     (case map_result (\<lambda>x. if x = JNull then Inr [] else js_String x) xs of
        Inl e \<Rightarrow> Inl e
      | Inr strings \<Rightarrow> Inr (join '','' strings))"
| "js_String (JObj kvs) =
     (if ''toString'' \<in> fst ` set kvs then Inl TypeError else Inr ''[object Object]'')"

fun typeof_object :: "json \<Rightarrow> bool" where
  \<comment> \<open>\<^verbatim>\<open>typeof v === 'object'\<close>, which holds of null too\<close>
  "typeof_object JNull = True"
| "typeof_object (JArr xs) = True"
| "typeof_object (JObj kvs) = True"
| "typeof_object v = False"

text \<open>
  Own properties. \<open>own_set\<close> creates or overwrites an own property, as an object literal and
  \<^verbatim>\<open>JSON.parse\<close> do for every key and as an assignment does for every key that no setter
  handles.
\<close>

fun obj_update :: "(string \<times> 'v) list \<Rightarrow> string \<Rightarrow> 'v \<Rightarrow> (string \<times> 'v) list" where
  \<comment> \<open>the object has the property: it keeps its place\<close>
  "obj_update [] k v = []"
| "obj_update ((k', v') # rest) k v =
     (if k' = k then (k, v) # rest else (k', v') # obj_update rest k v)"

fun obj_insert_index :: "(string \<times> 'v) list \<Rightarrow> string \<Rightarrow> 'v \<Rightarrow> (string \<times> 'v) list" where
  \<comment> \<open>a new array-index key goes before the first key that is not an array index or is a
      larger one\<close>
  "obj_insert_index [] k v = [(k, v)]"
| "obj_insert_index ((k', v') # rest) k v =
     (if is_array_index k' \<and> nat_of_digits k' < nat_of_digits k
      then (k', v') # obj_insert_index rest k v
      else (k, v) # (k', v') # rest)"

definition own_set :: "(string \<times> 'v) list \<Rightarrow> string \<Rightarrow> 'v \<Rightarrow> (string \<times> 'v) list" where
  "own_set obj k v =
     (if k \<in> fst ` set obj then obj_update obj k v
      else if is_array_index k then obj_insert_index obj k v
      else obj @ [(k, v)])"

text \<open>
  Prototypes. An object the program builds starts as \<^verbatim>\<open>{}\<close>, with the prototype
  \<^verbatim>\<open>Object.prototype\<close>. The members of \<^verbatim>\<open>Object.prototype\<close> are functions, but for
  \<^verbatim>\<open>__proto__\<close>: an accessor whose getter returns the prototype of the object it is read
  from, and whose setter makes an object or null the prototype of the object it is assigned
  on and does nothing with any other value. So \<^verbatim>\<open>obj['__proto__'] = v\<close> creates no property
  as long as the lookup of \<^verbatim>\<open>__proto__\<close> from \<^verbatim>\<open>obj\<close> ends at that accessor, and an object
  built by assignment can come to inherit from a parsed object or array. \<open>jsobject\<close> is
  such an object: its own properties and its prototype. The member names are those of
  ECMAScript 2023 with its Annex B.
\<close>

datatype proto =
    ObjectPrototype
  | NoPrototype
  | ProtoObject "(string \<times> json) list"
  | ProtoArray "json list"

type_synonym jsobject = "entry \<times> proto"

definition object_prototype_names :: "string list" where
  "object_prototype_names =
     [''constructor'', ''__defineGetter__'', ''__defineSetter__'', ''hasOwnProperty'',
      ''__lookupGetter__'', ''__lookupSetter__'', ''isPrototypeOf'', ''propertyIsEnumerable'',
      ''toString'', ''valueOf'', ''__proto__'', ''toLocaleString'']"

definition array_prototype_names :: "string list" where
  \<comment> \<open>the functions of \<^verbatim>\<open>Array.prototype\<close>; \<^verbatim>\<open>length\<close> is an own property of every array\<close>
  "array_prototype_names =
     [''constructor'', ''at'', ''concat'', ''copyWithin'', ''fill'', ''find'', ''findIndex'',
      ''findLast'', ''findLastIndex'', ''lastIndexOf'', ''pop'', ''push'', ''reverse'', ''shift'',
      ''unshift'', ''slice'', ''sort'', ''splice'', ''includes'', ''indexOf'', ''join'', ''keys'',
      ''entries'', ''values'', ''forEach'', ''filter'', ''flat'', ''flatMap'', ''map'', ''every'',
      ''some'', ''reduce'', ''reduceRight'', ''toLocaleString'', ''toString'', ''toReversed'',
      ''toSorted'', ''toSpliced'', ''with'']"

datatype jsvalue =
    Val json
  | Builtin string
  | ObjectPrototypeObject

text \<open>
  A value read from an object: a parsed value, a function inherited from a prototype
  (named by its place, as in \<^verbatim>\<open>Object.prototype.toString\<close>), or the object
  \<^verbatim>\<open>Object.prototype\<close> itself. The last two are truthy.
\<close>

fun or_empty_value :: "jsvalue option \<Rightarrow> jsvalue" where
  \<comment> \<open>\<^verbatim>\<open>x || ''\<close> again, for a value read from an object\<close>
  "or_empty_value None = Val (JStr [])"
| "or_empty_value (Some (Val v)) = Val (or_empty (Some v))"
| "or_empty_value (Some x) = x"

definition inherited_from_Object :: "proto \<Rightarrow> string \<Rightarrow> jsvalue option" where
  \<comment> \<open>the lookup has reached \<^verbatim>\<open>Object.prototype\<close>; \<open>proto\<close> is the prototype of the object
      that is read\<close>
  "inherited_from_Object proto k =
     (if k = ''__proto__'' then
        (case proto of
           ObjectPrototype \<Rightarrow> Some ObjectPrototypeObject
         | NoPrototype \<Rightarrow> None
         | ProtoObject kvs \<Rightarrow> Some (Val (JObj kvs))
         | ProtoArray xs \<Rightarrow> Some (Val (JArr xs)))
      else if k \<in> set object_prototype_names then Some (Builtin (''Object.prototype.'' @ k))
      else None)"

definition js_get :: "jsobject \<Rightarrow> string \<Rightarrow> jsvalue option" where
  \<comment> \<open>\<^verbatim>\<open>obj[key]\<close>, \<open>None\<close> for \<^verbatim>\<open>undefined\<close>\<close>
  "js_get obj k =
     (case map_of (fst obj) k of
        Some v \<Rightarrow> Some (Val v)
      | None \<Rightarrow>
          (case snd obj of
             ObjectPrototype \<Rightarrow> inherited_from_Object (snd obj) k
           | NoPrototype \<Rightarrow> None
           | ProtoObject kvs \<Rightarrow>
               (case map_of kvs k of
                  Some v \<Rightarrow> Some (Val v)
                | None \<Rightarrow> inherited_from_Object (snd obj) k)
           | ProtoArray xs \<Rightarrow>
               if is_array_index k \<and> nat_of_digits k < length xs
                 then Some (Val (xs ! nat_of_digits k))
               else if k = ''length'' then Some (Val (JNum (string_of_nat (length xs))))
               else if k \<in> set array_prototype_names then Some (Builtin (''Array.prototype.'' @ k))
               else inherited_from_Object (snd obj) k))"

fun proto_set :: "proto \<Rightarrow> json \<Rightarrow> proto" where
  \<comment> \<open>the setter of \<^verbatim>\<open>__proto__\<close>\<close>
  "proto_set p (JObj kvs) = ProtoObject kvs"
| "proto_set p (JArr xs) = ProtoArray xs"
| "proto_set p JNull = NoPrototype"
| "proto_set p v = p"

definition reaches_proto_accessor :: "jsobject \<Rightarrow> bool" where
  \<comment> \<open>no property named \<^verbatim>\<open>__proto__\<close> stands before the accessor of \<^verbatim>\<open>Object.prototype\<close>\<close>
  "reaches_proto_accessor obj \<longleftrightarrow>
     ''__proto__'' \<notin> fst ` set (fst obj)
     \<and> (case snd obj of
          ObjectPrototype \<Rightarrow> True
        | NoPrototype \<Rightarrow> False
        | ProtoObject kvs \<Rightarrow> ''__proto__'' \<notin> fst ` set kvs
        | ProtoArray xs \<Rightarrow> True)"

definition assign :: "jsobject \<Rightarrow> string \<Rightarrow> json \<Rightarrow> jsobject" where
  \<comment> \<open>\<^verbatim>\<open>obj[key] = v\<close>\<close>
  "assign obj k v =
     (if k = ''__proto__'' \<and> reaches_proto_accessor obj
      then (fst obj, proto_set (snd obj) v)
      else (own_set (fst obj) k v, snd obj))"

definition obj_set :: "entry \<Rightarrow> string \<Rightarrow> json \<Rightarrow> entry" where
  \<comment> \<open>the own properties after \<^verbatim>\<open>obj[key] = v\<close> on an object whose prototype is
      \<^verbatim>\<open>Object.prototype\<close>; the flattener and the key-value extractor assign strings, which
      leave that prototype in place\<close>
  "obj_set obj k v = fst (assign (obj, ObjectPrototype) k v)"

definition Object_assign :: "entry \<Rightarrow> entry \<Rightarrow> entry" where
  \<comment> \<open>\<^verbatim>\<open>Object.assign(target, source)\<close>: one assignment for each own property of the source\<close>
  "Object_assign target source = fold (\<lambda>(k, v) t. obj_set t k v) source target"

definition indexed :: "json list \<Rightarrow> (string \<times> json) list" where
  \<comment> \<open>the entries of an array seen as an object: index keys and elements\<close>
  "indexed xs = zip (map string_of_nat [0..<length xs]) xs"

section \<open>The record flattener\<close>

text \<open>
  \<^verbatim>\<open>flattenObject(obj, prefix = '')\<close> is three functions here: the call itself, which takes
  \<^verbatim>\<open>Object.entries(obj)\<close>; its loop over the entries, which carries the object \<^verbatim>\<open>flattened\<close>;
  and the \<^verbatim>\<open>forEach\<close> over the elements of a sequence whose first element has the type
  \<^verbatim>\<open>'object'\<close>. An exception (\<open>Inl\<close>) ends all of them. The weights \<open>jweight\<close> and
  \<open>eweight\<close> only serve the termination proof: every call descends into the value.
\<close>

fun jweight :: "json \<Rightarrow> nat" where
  "jweight (JStr s) = Suc (length s)"
| "jweight (JArr xs) = Suc (length xs + sum_list (map jweight xs))"
| "jweight (JObj kvs) = Suc (length kvs + sum_list (map (\<lambda>kv. jweight (snd kv)) kvs))"
| "jweight v = 1"

definition eweight :: "(string \<times> json) list \<Rightarrow> nat" where
  "eweight kvs =
     length kvs + sum_list (map (\<lambda>kv. if typeof_object (snd kv) then jweight (snd kv) else 0) kvs)"

lemma eweight_le: "eweight kvs \<le> length kvs + sum_list (map (\<lambda>kv. jweight (snd kv)) kvs)"
  unfolding eweight_def by (induction kvs) auto

lemma sum_zip_le: "sum_list (map (\<lambda>kv. jweight (snd kv)) (zip ks xs)) \<le> sum_list (map jweight xs)"
proof (induction xs arbitrary: ks)
  case Nil
  then show ?case by simp
next
  case (Cons x xs)
  then show ?case by (cases ks) (auto intro: le_SucI trans_le_add2)
qed

lemma eweight_indexed: "eweight (indexed xs) \<le> length xs + sum_list (map jweight xs)"
proof -
  have "eweight (indexed xs) \<le> length (indexed xs) + sum_list (map (\<lambda>kv. jweight (snd kv)) (indexed xs))"
    by (rule eweight_le)
  also have "\<dots> \<le> length xs + sum_list (map jweight xs)"
    unfolding indexed_def using sum_zip_le [of "map string_of_nat [0..<length xs]" xs] by simp
  finally show ?thesis .
qed

lemma eweight_chars: "eweight (indexed (map (\<lambda>c. JStr [c]) s)) = length s"
proof -
  have "\<And>ks. sum_list (map (\<lambda>kv. if typeof_object (snd kv) then jweight (snd kv) else 0)
          (zip ks (map (\<lambda>c. JStr [c]) s))) = 0"
  proof (induction s)
    case Nil
    then show ?case by simp
  next
    case (Cons c s)
    then show ?case by (cases ks) auto
  qed
  then show ?thesis by (simp add: eweight_def indexed_def)
qed

function flattenObject :: "json \<Rightarrow> string \<Rightarrow> error + entry"
  and flattenEntries :: "(string \<times> json) list \<Rightarrow> string \<Rightarrow> entry \<Rightarrow> error + entry"
  and flattenItems :: "json list \<Rightarrow> nat \<Rightarrow> string \<Rightarrow> entry \<Rightarrow> error + entry"
where
  \<comment> \<open>\<^verbatim>\<open>Object.entries(obj)\<close> throws on null, is empty on a number or a boolean, and lists
      the characters of a string and the elements of an array under their indices\<close>
  "flattenObject JNull prefix = Inl TypeError"
| "flattenObject (JBool b) prefix = Inr []"
| "flattenObject (JNum r) prefix = Inr []"
| "flattenObject (JStr s) prefix = flattenEntries (indexed (map (\<lambda>c. JStr [c]) s)) prefix []"
| "flattenObject (JArr xs) prefix = flattenEntries (indexed xs) prefix []"
| "flattenObject (JObj kvs) prefix = flattenEntries kvs prefix []"
  \<comment> \<open>the loop \<^verbatim>\<open>for (const [key, value] of Object.entries(obj))\<close>\<close>
| "flattenEntries [] prefix flattened = Inr flattened"
| "flattenEntries ((key, value) # rest) prefix flattened =
     (let newKey = (if prefix \<noteq> [] then prefix @ ''_'' @ key else key) in
      case value of
        JNull \<Rightarrow> flattenEntries rest prefix (obj_set flattened newKey (JStr []))
      | JObj kvs \<Rightarrow>
          (case flattenObject (JObj kvs) newKey of
             Inl e \<Rightarrow> Inl e
           | Inr r \<Rightarrow> flattenEntries rest prefix (Object_assign flattened r))
      | JArr xs \<Rightarrow>
          (if length xs > 0 \<and> typeof_object (hd xs)
           then (case flattenItems xs 0 newKey flattened of
                   Inl e \<Rightarrow> Inl e
                 | Inr flattened' \<Rightarrow> flattenEntries rest prefix flattened')
           else (case map_result (\<lambda>item. js_String (or_empty (Some item))) xs of
                   Inl e \<Rightarrow> Inl e
                 | Inr strings \<Rightarrow>
                     flattenEntries rest prefix (obj_set flattened newKey (JStr (join '', '' strings)))))
      | _ \<Rightarrow>
          (case js_String value of
             Inl e \<Rightarrow> Inl e
           | Inr s \<Rightarrow> flattenEntries rest prefix (obj_set flattened newKey (JStr s))))"
  \<comment> \<open>\<^verbatim>\<open>value.forEach((item, index) => Object.assign(flattened, flattenObject(item, ...)))\<close>\<close>
| "flattenItems [] index newKey flattened = Inr flattened"
| "flattenItems (item # items) index newKey flattened =
     (case flattenObject item (newKey @ ''_'' @ string_of_nat index) of
        Inl e \<Rightarrow> Inl e
      | Inr r \<Rightarrow> flattenItems items (Suc index) newKey (Object_assign flattened r))"
  by pat_completeness auto
termination
proof (relation "measure (\<lambda>x. case x of
          Inl (obj, prefix) \<Rightarrow> jweight obj
        | Inr (Inl (kvs, prefix, flattened)) \<Rightarrow> eweight kvs
        | Inr (Inr (xs, index, newKey, flattened)) \<Rightarrow> length xs + sum_list (map jweight xs))",
      goal_cases)
  case 1
  show ?case by simp
next
  case (2 s prefix)
  show ?case by (simp add: eweight_chars)
next
  case (3 xs prefix)
  show ?case using eweight_indexed [of xs] by simp
next
  case (4 kvs prefix)
  show ?case using eweight_le [of kvs] by simp
qed (auto simp: eweight_def)

text \<open>
  A flat Record has only string values.
\<close>

fun is_string :: "json \<Rightarrow> bool" where
  "is_string (JStr s) = True"
| "is_string v = False"

definition flat_record :: "entry \<Rightarrow> bool" where
  "flat_record r \<longleftrightarrow> list_all (\<lambda>kv. is_string (snd kv)) r"

section \<open>The deduplicator and schema merger\<close>

text \<open>
  \<^verbatim>\<open>removeDuplicates\<close> keeps an entry when \<^verbatim>\<open>JSON.stringify(entry)\<close> is not yet in the
  set \<^verbatim>\<open>seen\<close>. \<^verbatim>\<open>JSON.stringify\<close> writes the properties in enumeration order, quotes
  strings with the escapes of the standard, and writes a number that is not finite as
  \<^verbatim>\<open>null\<close>.
\<close>

definition hex_char :: "nat \<Rightarrow> char" where
  "hex_char d = ''0123456789abcdef'' ! d"

definition escape_char :: "char \<Rightarrow> string" where
  "escape_char c =
     (if c = CHR 0x22 then [CHR 0x5C, CHR 0x22]
      else if c = CHR 0x5C then [CHR 0x5C, CHR 0x5C]
      else if c = CHR 0x08 then [CHR 0x5C, CHR ''b'']
      else if c = CHR 0x0C then [CHR 0x5C, CHR ''f'']
      else if c = CHR 0x0A then [CHR 0x5C, CHR ''n'']
      else if c = CHR 0x0D then [CHR 0x5C, CHR ''r'']
      else if c = CHR 0x09 then [CHR 0x5C, CHR ''t'']
      else if (of_char c :: nat) < 32
        then [CHR 0x5C, CHR ''u'', CHR ''0'', CHR ''0'',
              hex_char (of_char c div 16), hex_char (of_char c mod 16)]
      else [c])"

definition JSON_quote :: "string \<Rightarrow> string" where
  "JSON_quote s = [CHR 0x22] @ concat (map escape_char s) @ [CHR 0x22]"

fun JSON_stringify :: "json \<Rightarrow> string" where
  "JSON_stringify JNull = ''null''"
| "JSON_stringify (JBool b) = (if b then ''true'' else ''false'')"
| "JSON_stringify (JNum r) =
     (if r = ''Infinity'' \<or> r = ''-Infinity'' \<or> r = ''NaN'' then ''null'' else r)"
| "JSON_stringify (JStr s) = JSON_quote s"
| "JSON_stringify (JArr xs) = ''['' @ join '','' (map JSON_stringify xs) @ '']''"
| "JSON_stringify (JObj kvs) =
     ''{'' @ join '','' (map (\<lambda>kv. JSON_quote (fst kv) @ '':'' @ JSON_stringify (snd kv)) kvs) @ ''}''"

fun removeDuplicates_filter :: "string set \<Rightarrow> jsobject list \<Rightarrow> jsobject list" where
  \<comment> \<open>\<^verbatim>\<open>entries.filter(entry => ...)\<close> with the set \<^verbatim>\<open>seen\<close> as it stands; the text of an
      entry lists its own properties\<close>
  "removeDuplicates_filter seen [] = []"
| "removeDuplicates_filter seen (entry # entries) =
     (let key = JSON_stringify (JObj (fst entry)) in
      if key \<in> seen then removeDuplicates_filter seen entries
      else entry # removeDuplicates_filter (insert key seen) entries)"

definition removeDuplicates :: "jsobject list \<Rightarrow> jsobject list" where
  "removeDuplicates entries = removeDuplicates_filter {} entries"

definition dedup_key :: "jsobject \<Rightarrow> string" where
  \<comment> \<open>\<^verbatim>\<open>const key = JSON.stringify(entry)\<close>\<close>
  "dedup_key entry = JSON_stringify (JObj (fst entry))"

text \<open>
  \<^verbatim>\<open>mergeEntries\<close>: \<^verbatim>\<open>allKeys\<close> is a \<^verbatim>\<open>Set\<close> of the own keys of the unique entries, iterated
  in insertion order, so it is a list without repetition; every unique entry is rebuilt
  with \<^verbatim>\<open>normalized[key] = entry[key] || ''\<close> for each key of \<^verbatim>\<open>allKeys\<close>. The read
  \<^verbatim>\<open>entry[key]\<close> goes up the prototype chain of the entry. The object \<^verbatim>\<open>normalized\<close> starts
  as \<^verbatim>\<open>{}\<close>; the one assignment it can get under \<^verbatim>\<open>__proto__\<close> runs the setter of
  \<^verbatim>\<open>Object.prototype\<close>, which gives it no property. The result lists the own properties of
  the rebuilt objects.
\<close>

definition set_add :: "string list \<Rightarrow> string \<Rightarrow> string list" where
  \<comment> \<open>\<^verbatim>\<open>allKeys.add(key)\<close>\<close>
  "set_add ks k = (if k \<in> set ks then ks else ks @ [k])"

definition allKeys_of :: "jsobject list \<Rightarrow> string list" where
  "allKeys_of uniqueEntries =
     fold (\<lambda>entry allKeys. fold (\<lambda>key allKeys. set_add allKeys key) (map fst (fst entry)) allKeys)
       uniqueEntries []"

definition value_assign :: "(string \<times> jsvalue) list \<Rightarrow> string \<Rightarrow> jsvalue \<Rightarrow> (string \<times> jsvalue) list" where
  \<comment> \<open>the own properties of \<^verbatim>\<open>normalized\<close> after \<^verbatim>\<open>normalized[key] = v\<close>\<close>
  "value_assign normalized k v = (if k = ''__proto__'' then normalized else own_set normalized k v)"

definition normalized_entry :: "string list \<Rightarrow> jsobject \<Rightarrow> (string \<times> jsvalue) list" where
  \<comment> \<open>\<^verbatim>\<open>for (const key of allKeys) normalized[key] = entry[key] || ''\<close>\<close>
  "normalized_entry allKeys entry =
     fold (\<lambda>key normalized. value_assign normalized key (or_empty_value (js_get entry key))) allKeys []"

definition mergeEntries :: "jsobject list \<Rightarrow> (string \<times> jsvalue) list list" where
  "mergeEntries entries =
     (let uniqueEntries = removeDuplicates entries;
          allKeys = allKeys_of uniqueEntries
      in map (normalized_entry allKeys) uniqueEntries)"

section \<open>Regular expressions\<close>

text \<open>
  The regular expressions of the source are matched by backtracking. \<open>matches r s\<close> lists
  what is left of \<open>s\<close> after each way of matching \<open>r\<close> at its start, in the order in
  which a backtracking matcher tries them: the first alternative first, a greedy star with
  one more iteration first, a lazy star with no more iteration first. An iteration of a
  star that consumes nothing is not tried again.
\<close>

datatype regex =
    Eps
  | Chr "char \<Rightarrow> bool"
  | Seq regex regex
  | Alt regex regex
  | Star regex
  | LazyStar regex

fun matches :: "regex \<Rightarrow> string \<Rightarrow> string list" where
  "matches Eps s = [s]"
| "matches (Chr P) s = (case s of [] \<Rightarrow> [] | c # cs \<Rightarrow> if P c then [cs] else [])"
| "matches (Seq a b) s = concat (map (matches b) (matches a s))"
| "matches (Alt a b) s = matches a s @ matches b s"
| "matches (Star a) s =
     concat (map (\<lambda>r. if length r < length s then matches (Star a) r else []) (matches a s)) @ [s]"
| "matches (LazyStar a) s =
     s # concat (map (\<lambda>r. if length r < length s then matches (LazyStar a) r else []) (matches a s))"

definition Plus :: "regex \<Rightarrow> regex" where
  \<comment> \<open>\<^verbatim>\<open>r+\<close>\<close>
  "Plus r = Seq r (Star r)"

definition Opt :: "regex \<Rightarrow> regex" where
  \<comment> \<open>\<^verbatim>\<open>r?\<close>\<close>
  "Opt r = Alt r Eps"

definition Lit :: "char \<Rightarrow> regex" where
  "Lit c = Chr (\<lambda>x. x = c)"

definition match_len :: "regex \<Rightarrow> string \<Rightarrow> nat option" where
  \<comment> \<open>the length of the match found at the start of \<open>s\<close>: the first way that succeeds\<close>
  "match_len r s = (case matches r s of [] \<Rightarrow> None | rest # _ \<Rightarrow> Some (length s - length rest))"

text \<open>
  \<^verbatim>\<open>s.split(re)\<close>, \<^verbatim>\<open>s.replace(re, ...)\<close> and \<^verbatim>\<open>s.match(re)\<close> with the flag \<^verbatim>\<open>g\<close> scan the string
  from the left: a match at the current position is taken, otherwise the position moves on
  by one character. \<open>match_groups\<close> matches a sequence of expressions and returns what each
  of them consumed (the capture groups) with what is left.
\<close>

function split_from :: "regex \<Rightarrow> string \<Rightarrow> string \<Rightarrow> string list" where
  \<comment> \<open>\<open>piece\<close> is the text since the last separator; an empty match where the last
      separator ended does not split\<close>
  "split_from sep piece [] = [piece]"
| "split_from sep piece (c # cs) =
     (case match_len sep (c # cs) of
        None \<Rightarrow> split_from sep (piece @ [c]) cs
      | Some n \<Rightarrow>
          if n = 0 \<and> piece = [] then split_from sep (piece @ [c]) cs
          else if n = 0 then piece # split_from sep [] (c # cs)
          else piece # split_from sep [] (drop n (c # cs)))"
  by pat_completeness auto
termination
  by (relation "measures [\<lambda>(sep, piece, s). length s, \<lambda>(sep, piece, s). length piece]") auto

definition split :: "regex \<Rightarrow> string \<Rightarrow> string list" where
  \<comment> \<open>\<^verbatim>\<open>s.split(sep)\<close>\<close>
  "split sep s =
     (if s = [] then (case match_len sep [] of None \<Rightarrow> [[]] | Some n \<Rightarrow> [])
      else split_from sep [] s)"

function replace_all :: "regex \<Rightarrow> (string \<Rightarrow> string) \<Rightarrow> string \<Rightarrow> string" where
  \<comment> \<open>\<^verbatim>\<open>s.replace(re, ...)\<close> with the flag \<^verbatim>\<open>g\<close>; \<open>f\<close> gives the replacement of a match\<close>
  "replace_all re f [] = (case match_len re [] of None \<Rightarrow> [] | Some n \<Rightarrow> f [])"
| "replace_all re f (c # cs) =
     (case match_len re (c # cs) of
        None \<Rightarrow> c # replace_all re f cs
      | Some n \<Rightarrow>
          if n = 0 then f [] @ c # replace_all re f cs
          else f (take n (c # cs)) @ replace_all re f (drop n (c # cs)))"
  by pat_completeness auto
termination
  by (relation "measure (\<lambda>(re, f, s). length s)") auto

function match_all :: "regex \<Rightarrow> string \<Rightarrow> string list" where
  \<comment> \<open>\<^verbatim>\<open>s.match(re) || []\<close> with the flag \<^verbatim>\<open>g\<close>\<close>
  "match_all re [] = (case match_len re [] of None \<Rightarrow> [] | Some n \<Rightarrow> [[]])"
| "match_all re (c # cs) =
     (case match_len re (c # cs) of
        None \<Rightarrow> match_all re cs
      | Some n \<Rightarrow>
          if n = 0 then [] # match_all re cs
          else take n (c # cs) # match_all re (drop n (c # cs)))"
  by pat_completeness auto
termination
  by (relation "measure (\<lambda>(re, s). length s)") auto

fun match_groups :: "regex list \<Rightarrow> string \<Rightarrow> (string list \<times> string) list" where
  "match_groups [] s = [([], s)]"
| "match_groups (r # rs) s =
     concat (map (\<lambda>rest. map (\<lambda>(groups, final). (take (length s - length rest) s # groups, final))
                            (match_groups rs rest))
               (matches r s))"

section \<open>The key-value block extractor\<close>

text \<open>
  \<^verbatim>\<open>extractKeyValuePairs\<close>. The blocks are
  \<^verbatim>\<open>text.split(/(?:\r?\n\s*\r?\n|\{|\}|\[|\])+/).filter(block => block.trim())\<close>, the lines of a
  block \<^verbatim>\<open>block.split(/[\n;]+/).filter(line => line.trim())\<close>, and a line is matched against
  \<^verbatim>\<open>/^([^:=]+)[:=]\s*(.+)$/\<close>: the first way of matching the four parts that reaches the
  end of the line gives the groups \<open>key\<close> and \<open>value\<close>.
\<close>

definition block_separator :: regex where
  "block_separator =
     Plus (Alt (Seq (Opt (Lit (CHR 0x0D))) (Seq (Lit (CHR 0x0A)) (Seq (Star (Chr is_space))
                  (Seq (Opt (Lit (CHR 0x0D))) (Lit (CHR 0x0A))))))
          (Alt (Lit CHR ''{'') (Alt (Lit CHR ''}'') (Alt (Lit CHR ''['') (Lit CHR '']'')))))"

definition line_separator :: regex where
  "line_separator = Plus (Chr (\<lambda>c. c = CHR 0x0A \<or> c = CHR '';''))"

definition match_line :: "string \<Rightarrow> (string \<times> string) option" where
  "match_line line =
     (case filter (\<lambda>(groups, final). final = [])
             (match_groups [Plus (Chr (\<lambda>c. c \<noteq> CHR '':'' \<and> c \<noteq> CHR ''='')),
                            Chr (\<lambda>c. c = CHR '':'' \<or> c = CHR ''=''),
                            Star (Chr is_space),
                            Plus (Chr (\<lambda>c. \<not> is_line_terminator c))] line) of
        [] \<Rightarrow> None
      | (groups, final) # _ \<Rightarrow> Some (groups ! 0, groups ! 3))"

definition is_quote :: "char \<Rightarrow> bool" where
  "is_quote c \<longleftrightarrow> c = CHR 0x22 \<or> c = CHR 0x27"

definition strip_quotes :: "string \<Rightarrow> string" where
  \<comment> \<open>\<^verbatim>\<open>.replace(/^["']|["']$/g, '')\<close>: a quote at the start goes, then a quote at the end
      of what is left\<close>
  "strip_quotes s =
     (let s1 = (case s of [] \<Rightarrow> [] | c # cs \<Rightarrow> if is_quote c then cs else s)
      in if s1 \<noteq> [] \<and> is_quote (last s1) then butlast s1 else s1)"

definition cleanKey_of :: "string \<Rightarrow> string" where
  \<comment> \<open>\<^verbatim>\<open>key.trim().replace(/['"]/g, '').replace(/[\s_]+/g, '_').replace(/[^\w\s-]/g, '').toLowerCase()\<close>\<close>
  "cleanKey_of key =
     toLowerCase
       (replace_all (Chr (\<lambda>c. \<not> is_word c \<and> \<not> is_space c \<and> c \<noteq> CHR ''-'')) (\<lambda>m. [])
         (replace_all (Plus (Chr (\<lambda>c. is_space c \<or> c = CHR ''_''))) (\<lambda>m. ''_'')
           (replace_all (Chr is_quote) (\<lambda>m. []) (trim key))))"

definition cleanValue_of :: "string \<Rightarrow> string" where
  \<comment> \<open>\<^verbatim>\<open>value.trim().replace(/^["']|["']$/g, '').replace(/\s+/g, ' ')\<close>\<close>
  "cleanValue_of v =
     replace_all (Plus (Chr is_space)) (\<lambda>m. '' '') (strip_quotes (trim v))"

definition line_step :: "entry \<times> bool \<Rightarrow> string \<Rightarrow> entry \<times> bool" where
  \<comment> \<open>the body of the loop over the lines; the state is \<^verbatim>\<open>currentEntry\<close> with
      \<^verbatim>\<open>hasValidPair\<close>\<close>
  "line_step state line =
     (case match_line line of
        None \<Rightarrow> state
      | Some (key, v) \<Rightarrow>
          (let cleanKey = cleanKey_of key; cleanValue = cleanValue_of v in
           if cleanKey \<noteq> [] \<and> cleanValue \<noteq> []
           then (obj_set (fst state) cleanKey (JStr cleanValue), True)
           else state))"

definition lines_of :: "string \<Rightarrow> string list" where
  "lines_of block = filter (\<lambda>line. trim line \<noteq> []) (split line_separator block)"

definition blocks_of :: "string \<Rightarrow> string list" where
  "blocks_of text = filter (\<lambda>block. trim block \<noteq> []) (split block_separator text)"

definition block_entry :: "string \<Rightarrow> entry \<times> bool" where
  "block_entry block = foldl line_step ([], False) (lines_of block)"

definition extractKeyValuePairs :: "string \<Rightarrow> entry list" where
  "extractKeyValuePairs text =
     foldl (\<lambda>entries block.
              (case block_entry block of
                 (currentEntry, hasValidPair) \<Rightarrow>
                   if hasValidPair then entries @ [currentEntry] else entries))
       [] (blocks_of text)"

definition valid_pair :: "string \<Rightarrow> bool" where
  \<comment> \<open>the line matches and \<^verbatim>\<open>cleanKey && cleanValue\<close> holds\<close>
  "valid_pair line =
     (case match_line line of
        None \<Rightarrow> False
      | Some (key, v) \<Rightarrow> cleanKey_of key \<noteq> [] \<and> cleanValue_of v \<noteq> [])"

section \<open>The table normalizer\<close>

text \<open>
  \<^verbatim>\<open>normalizeData\<close>. \<^verbatim>\<open>row[index]\<close> throws on a null row, is \<^verbatim>\<open>undefined\<close> out of range and
  on a number or a boolean, a one-character string on a string and the own property
  \<^verbatim>\<open>String(index)\<close> on an object (no prototype has a member with such a name). An
  exception inside \<^verbatim>\<open>map\<close> ends the call. In the assignment
  \<^verbatim>\<open>obj[String(header).toLowerCase()] = row[index] || ''\<close> the key is evaluated before the
  value.
\<close>

fun js_index :: "json \<Rightarrow> nat \<Rightarrow> error + json option" where
  \<comment> \<open>\<^verbatim>\<open>row[index]\<close>\<close>
  "js_index JNull i = Inl TypeError"
| "js_index (JArr xs) i = Inr (if i < length xs then Some (xs ! i) else None)"
| "js_index (JStr s) i = Inr (if i < length s then Some (JStr [s ! i]) else None)"
| "js_index (JObj kvs) i = Inr (map_of kvs (string_of_nat i))"
| "js_index v i = Inr None"

fun row_headers :: "json \<Rightarrow> (json \<times> nat) list \<Rightarrow> jsobject \<Rightarrow> error + jsobject" where
  \<comment> \<open>\<^verbatim>\<open>headers.forEach((header, index) => obj[String(header).toLowerCase()] = row[index] || '')\<close>\<close>
  "row_headers row [] obj = Inr obj"
| "row_headers row ((header, index) # rest) obj =
     (case js_String header of
        Inl e \<Rightarrow> Inl e
      | Inr name \<Rightarrow>
          (case js_index row index of
             Inl e \<Rightarrow> Inl e
           | Inr cell \<Rightarrow> row_headers row rest (assign obj (toLowerCase name) (or_empty cell))))"

definition normalizeData :: "json \<Rightarrow> error + jsobject list" where
  "normalizeData data0 =
     (let data = (case data0 of JArr xs \<Rightarrow> xs | _ \<Rightarrow> [data0]) in
      case data of
        JArr headers # rows \<Rightarrow>
          map_result (\<lambda>row. row_headers row (zip headers [0..<length headers]) ([], ObjectPrototype)) rows
      | _ \<Rightarrow>
          map_result (\<lambda>entry.
              if \<not> typeof_object entry \<or> entry = JNull
              then (case js_String entry of
                      Inl e \<Rightarrow> Inl e
                    | Inr s \<Rightarrow> Inr ([(''value'', JStr s)], ObjectPrototype))
              else (case flattenObject entry [] of
                      Inl e \<Rightarrow> Inl e
                    | Inr flattened \<Rightarrow> Inr (flattened, ObjectPrototype))) data)"

fun is_tabular :: "json \<Rightarrow> bool" where
  \<comment> \<open>the data take the table path: \<^verbatim>\<open>data.length > 0 && Array.isArray(data[0])\<close>\<close>
  "is_tabular (JArr (JArr headers # rows)) = True"
| "is_tabular v = False"

section \<open>Strict parsing\<close>

text \<open>
  \<^verbatim>\<open>JSON.parse\<close> belongs to the language, not to the repository: \<open>findJsonObjects\<close> and
  \<open>parseDocument\<close> below take it as the parameter \<open>jsonParse\<close> (\<open>None\<close> when it throws),
  and the theorems hold whatever it does. \<open>JSON_parse\<close> is a parser of the JSON grammar
  for evaluating concrete texts. It reads number literals that are integers of at most 15
  digits, whose rendering is their own text, and strings whose code units are below 256;
  on other texts its result says nothing about \<^verbatim>\<open>JSON.parse\<close>. The members of an object are
  created in order as own properties, so a repeated key keeps its first place and its last
  value.
\<close>

definition is_json_ws :: "char \<Rightarrow> bool" where
  "is_json_ws c \<longleftrightarrow> c \<in> {CHR '' '', CHR 0x09, CHR 0x0A, CHR 0x0D}"

definition skip_ws :: "string \<Rightarrow> string" where
  "skip_ws s = dropWhile is_json_ws s"

lemma length_skip_ws: "length (skip_ws s) \<le> length s"
  by (simp add: skip_ws_def length_dropWhile_le)

lemma skip_ws_Cons: "skip_ws s = c # cs \<Longrightarrow> length cs < length s"
proof -
  assume a: "skip_ws s = c # cs"
  have "length (skip_ws s) \<le> length s" by (rule length_skip_ws)
  then have "length (c # cs) \<le> length s" by (simp only: a)
  then show ?thesis by simp
qed

definition hex_val :: "char \<Rightarrow> nat option" where
  "hex_val c = map_of (zip ''0123456789abcdefABCDEF'' ([0..<16] @ [10..<16])) c"

definition hex4 :: "string \<Rightarrow> nat option" where
  "hex4 ds =
     (case map hex_val ds of
        [Some a, Some b, Some c, Some d] \<Rightarrow> Some (((a * 16 + b) * 16 + c) * 16 + d)
      | _ \<Rightarrow> None)"

definition simple_escape :: "char \<Rightarrow> char option" where
  "simple_escape e =
     map_of [(CHR 0x22, CHR 0x22), (CHR 0x5C, CHR 0x5C), (CHR ''/'', CHR ''/''),
             (CHR ''b'', CHR 0x08), (CHR ''f'', CHR 0x0C), (CHR ''n'', CHR 0x0A),
             (CHR ''r'', CHR 0x0D), (CHR ''t'', CHR 0x09)] e"

fun parse_string :: "string \<Rightarrow> string \<Rightarrow> (string \<times> string) option" where
  "parse_string [] acc = None"
| "parse_string (c # cs) acc =
     (if c = CHR 0x22 then Some (acc, cs)
      else if c = CHR 0x5C then
        (case cs of
           [] \<Rightarrow> None
         | e # cs' \<Rightarrow>
             if e = CHR ''u'' then
               (case hex4 (take 4 cs') of
                  None \<Rightarrow> None
                | Some n \<Rightarrow> if n < 256 then parse_string (drop 4 cs') (acc @ [char_of n]) else None)
             else (case simple_escape e of
                     None \<Rightarrow> None
                   | Some ch \<Rightarrow> parse_string cs' (acc @ [ch])))
      else if (of_char c :: nat) < 32 then None
      else parse_string cs (acc @ [c]))"

definition parse_number :: "string \<Rightarrow> (json \<times> string) option" where
  "parse_number s =
     (let neg = (s \<noteq> [] \<and> hd s = CHR ''-'');
          s1 = (if neg then tl s else s);
          digits = takeWhile is_digit s1;
          rest = dropWhile is_digit s1
      in if digits = [] \<or> (hd digits = CHR ''0'' \<and> length digits > 1) then None
         else if rest \<noteq> [] \<and> hd rest \<in> set ''.eE'' then None
         else if length digits > 15 then None
         else Some (JNum (if digits = ''0'' then ''0'' else if neg then CHR ''-'' # digits else digits),
                    rest))"

function parse_value :: "string \<Rightarrow> (json \<times> string) option"
  and parse_elements :: "string \<Rightarrow> json list \<Rightarrow> (json \<times> string) option"
  and parse_members :: "string \<Rightarrow> entry \<Rightarrow> (json \<times> string) option"
where
  "parse_value s =
     (case skip_ws s of
        [] \<Rightarrow> None
      | c # cs \<Rightarrow>
          if c = CHR ''{'' then
            (case skip_ws cs of
               [] \<Rightarrow> None
             | d # ds \<Rightarrow> if d = CHR ''}'' then Some (JObj [], ds) else parse_members cs [])
          else if c = CHR ''['' then
            (case skip_ws cs of
               [] \<Rightarrow> None
             | d # ds \<Rightarrow> if d = CHR '']'' then Some (JArr [], ds) else parse_elements cs [])
          else if c = CHR 0x22 then
            (case parse_string cs [] of None \<Rightarrow> None | Some (str, rest) \<Rightarrow> Some (JStr str, rest))
          else if take 4 (c # cs) = ''true'' then Some (JBool True, drop 4 (c # cs))
          else if take 5 (c # cs) = ''false'' then Some (JBool False, drop 5 (c # cs))
          else if take 4 (c # cs) = ''null'' then Some (JNull, drop 4 (c # cs))
          else parse_number (c # cs))"
| "parse_elements s elems =
     (case parse_value s of
        None \<Rightarrow> None
      | Some (v, rest) \<Rightarrow>
          if length rest < length s then
            (case skip_ws rest of
               [] \<Rightarrow> None
             | d # ds \<Rightarrow>
                 if d = CHR '','' then parse_elements ds (elems @ [v])
                 else if d = CHR '']'' then Some (JArr (elems @ [v]), ds)
                 else None)
          else None)"
| "parse_members s obj =
     (case skip_ws s of
        [] \<Rightarrow> None
      | q # qs \<Rightarrow>
          if q = CHR 0x22 then
            (case parse_string qs [] of
               None \<Rightarrow> None
             | Some (key, rest) \<Rightarrow>
                 (case skip_ws rest of
                    [] \<Rightarrow> None
                  | c # cs \<Rightarrow>
                      if c = CHR '':'' \<and> length cs < length s then
                        (case parse_value cs of
                           None \<Rightarrow> None
                         | Some (v, rest') \<Rightarrow>
                             if length rest' < length cs then
                               (case skip_ws rest' of
                                  [] \<Rightarrow> None
                                | d # ds \<Rightarrow>
                                    if d = CHR '','' then parse_members ds (own_set obj key v)
                                    else if d = CHR ''}'' then Some (JObj (own_set obj key v), ds)
                                    else None)
                             else None)
                      else None))
          else None)"
  by pat_completeness auto
termination
  apply (relation "measures [\<lambda>x. case x of Inl s \<Rightarrow> length s
                                 | Inr (Inl (s, elems)) \<Rightarrow> length s
                                 | Inr (Inr (s, obj)) \<Rightarrow> length s,
                           \<lambda>x. case x of Inl s \<Rightarrow> 0 | Inr (Inl (s, elems)) \<Rightarrow> 1 | Inr (Inr (s, obj)) \<Rightarrow> 1]")
  apply (auto dest: skip_ws_Cons)
  done

definition JSON_parse :: "string \<Rightarrow> json option" where
  "JSON_parse text =
     (case parse_value text of
        None \<Rightarrow> None
      | Some (v, rest) \<Rightarrow> if skip_ws rest = [] then Some v else None)"

definition quoted :: "string \<Rightarrow> string" where
  \<comment> \<open>a text between double quotes, for writing JSON texts\<close>
  "quoted s = [CHR 0x22] @ s @ [CHR 0x22]"

section \<open>The JSON fragment extractor\<close>

text \<open>
  \<^verbatim>\<open>findJsonObjects\<close>. The candidates are the matches of
  \<^verbatim>\<open>/(\{(?:[^{}]|(?:\{[^{}]*\}))*\}|\[(?:[^\[\]]|(?:\[.*?\]))*\])/g\<close>. Each is cleaned by the
  chain of \<^verbatim>\<open>replace\<close> calls; the first three of them remove or replace code units above
  255 (zero-width characters, curly quotes) and are the identity on the strings of the
  model. A candidate that does not parse is skipped, a parsed array is spliced into the
  results.
\<close>

definition jsonRegex :: regex where
  "jsonRegex =
     Alt (Seq (Lit CHR ''{'')
           (Seq (Star (Alt (Chr (\<lambda>c. c \<noteq> CHR ''{'' \<and> c \<noteq> CHR ''}''))
                           (Seq (Lit CHR ''{'')
                              (Seq (Star (Chr (\<lambda>c. c \<noteq> CHR ''{'' \<and> c \<noteq> CHR ''}''))) (Lit CHR ''}'')))))
                (Lit CHR ''}'')))
         (Seq (Lit CHR ''['')
           (Seq (Star (Alt (Chr (\<lambda>c. c \<noteq> CHR ''['' \<and> c \<noteq> CHR '']''))
                           (Seq (Lit CHR ''['')
                              (Seq (LazyStar (Chr (\<lambda>c. \<not> is_line_terminator c))) (Lit CHR '']'')))))
                (Lit CHR '']'')))"

definition cleaned_of :: "string \<Rightarrow> string" where
  "cleaned_of m =
     replace_all (Seq (Lit (CHR 0x5C)) (Lit CHR ''r'')) (\<lambda>m. '' '')
       (replace_all (Seq (Lit (CHR 0x5C)) (Lit CHR ''n'')) (\<lambda>m. '' '')
         (replace_all
            (Seq (Chr (\<lambda>c. c = CHR ''{'' \<or> c = CHR ''[''))
               (Seq (Lit CHR '','') (Seq (Star (Chr is_space))
                  (Seq (Lit (CHR 0x0A)) (Star (Chr is_space))))))
            (\<lambda>m. [hd m])
            (replace_all
               (Seq (Lit (CHR 0x0A)) (Seq (Star (Chr is_space))
                  (Chr (\<lambda>c. c = CHR 0x22 \<or> c = CHR ''}'' \<or> c = CHR 0x5C))))
               (\<lambda>m. [last m]) m)))"

definition findJsonObjects :: "(string \<Rightarrow> json option) \<Rightarrow> string \<Rightarrow> json list" where
  "findJsonObjects jsonParse text =
     concat (map (\<lambda>m. case jsonParse (cleaned_of m) of
                          None \<Rightarrow> []
                        | Some (JArr parsed) \<Rightarrow> parsed
                        | Some parsed \<Rightarrow> [parsed])
               (match_all jsonRegex text))"

section \<open>The pipeline\<close>

text \<open>
  \<^verbatim>\<open>parseDocument(input, isWordDoc)\<close>. A Word document is given by what
  \<^verbatim>\<open>mammoth.extractRawText\<close> returns for it: its raw text, or \<open>None\<close> when the extraction
  throws. For a text file the inner \<^verbatim>\<open>try\<close> covers both \<^verbatim>\<open>JSON.parse(text)\<close> and
  \<^verbatim>\<open>normalizeData(jsonData)\<close>: when either throws, the two extractors run. Every exception
  of the body, the one for no entries included, is caught and replaced by the error with
  the remediation message. The Records of the key-value extractor are objects with the
  prototype \<^verbatim>\<open>Object.prototype\<close>.
\<close>

datatype document = WordDoc "string option" | RawText string

definition remediation_message :: string where
  "remediation_message =
     ''Could not parse the document. Please ensure:'' @ [CHR 0x0A] @
     ''- The document contains valid data (JSON or key-value pairs)'' @ [CHR 0x0A] @
     ''- Each entry is properly formatted'' @ [CHR 0x0A] @
     ''- There are no special characters or formatting issues''"

definition extractEntries :: "(string \<Rightarrow> json option) \<Rightarrow> string \<Rightarrow> error + jsobject list" where
  \<comment> \<open>the two extractors, as both branches of \<^verbatim>\<open>parseDocument\<close> run them\<close>
  "extractEntries jsonParse text =
     (let jsonEntries = findJsonObjects jsonParse text in
      case (if length jsonEntries > 0 then normalizeData (JArr jsonEntries) else Inr []) of
        Inl e \<Rightarrow> Inl e
      | Inr entries \<Rightarrow>
          (let kvEntries = extractKeyValuePairs text in
           Inr (if length kvEntries > 0
                then entries @ map (\<lambda>kvEntry. (kvEntry, ObjectPrototype)) kvEntries
                else entries)))"

definition collectEntries :: "(string \<Rightarrow> json option) \<Rightarrow> document \<Rightarrow> error + jsobject list" where
  \<comment> \<open>the body of the outer \<^verbatim>\<open>try\<close> up to the test of \<^verbatim>\<open>entries.length\<close>\<close>
  "collectEntries jsonParse input =
     (case input of
        WordDoc None \<Rightarrow> Inl (Error ''mammoth'')
      | WordDoc (Some text) \<Rightarrow> extractEntries jsonParse text
      | RawText text \<Rightarrow>
          (case (case jsonParse text of
                   None \<Rightarrow> Inl (Error ''SyntaxError'')
                 | Some jsonData \<Rightarrow> normalizeData jsonData) of
             Inr entries \<Rightarrow> Inr entries
           | Inl e \<Rightarrow> extractEntries jsonParse text))"

definition parseDocument ::
  "(string \<Rightarrow> json option) \<Rightarrow> document \<Rightarrow> error + (string \<times> jsvalue) list list" where
  "parseDocument jsonParse input =
     (case (case collectEntries jsonParse input of
              Inl e \<Rightarrow> Inl e
            | Inr entries \<Rightarrow>
                if length entries = 0
                then Inl (Error ''No valid data entries found in the document'')
                else Inr (mergeEntries entries)) of
        Inl error \<Rightarrow> Inl (Error remediation_message)
      | Inr merged \<Rightarrow> Inr merged)"

text \<open>
  The JSON data that \<open>collectEntries\<close> normalizes: for a Word document the fragments the
  fragment extractor finds (when there is one); for a text file the whole text when it
  parses and normalizes, and the fragments otherwise. The input is tabular when these data
  take the table path of \<^verbatim>\<open>normalizeData\<close>. An entry is plain and flat when its prototype
  is \<^verbatim>\<open>Object.prototype\<close> and its own values are strings.
\<close>

definition fragments :: "(string \<Rightarrow> json option) \<Rightarrow> string \<Rightarrow> json option" where
  "fragments jsonParse text =
     (let jsonEntries = findJsonObjects jsonParse text in
      if length jsonEntries > 0 then Some (JArr jsonEntries) else None)"

definition normalizedData :: "(string \<Rightarrow> json option) \<Rightarrow> document \<Rightarrow> json option" where
  "normalizedData jsonParse input =
     (case input of
        WordDoc None \<Rightarrow> None
      | WordDoc (Some text) \<Rightarrow> fragments jsonParse text
      | RawText text \<Rightarrow>
          (case jsonParse text of
             None \<Rightarrow> fragments jsonParse text
           | Some jsonData \<Rightarrow>
               (case normalizeData jsonData of
                  Inr entries \<Rightarrow> Some jsonData
                | Inl e \<Rightarrow> fragments jsonParse text)))"

definition tabular_input :: "(string \<Rightarrow> json option) \<Rightarrow> document \<Rightarrow> bool" where
  "tabular_input jsonParse input =
     (case normalizedData jsonParse input of None \<Rightarrow> False | Some data \<Rightarrow> is_tabular data)"

definition plain_flat :: "jsobject \<Rightarrow> bool" where
  "plain_flat e \<longleftrightarrow> flat_record (fst e) \<and> snd e = ObjectPrototype"

section \<open>Objects: what an assignment stores\<close>

lemma set_obj_update: "set (obj_update obj k v) \<subseteq> insert (k, v) (set obj)"
  by (induction obj) (auto split: if_splits)

lemma set_obj_insert_index: "set (obj_insert_index obj k v) = insert (k, v) (set obj)"
  by (induction obj) (auto split: if_splits)

lemma set_own_set: "set (own_set obj k v) \<subseteq> insert (k, v) (set obj)"
  using set_obj_update [of obj k v] by (auto simp: own_set_def set_obj_insert_index)

lemma set_obj_set: "set (obj_set obj k v) \<subseteq> insert (k, v) (set obj)"
  using set_own_set [of obj k v] by (auto simp: obj_set_def assign_def)

lemma flat_record_iff: "flat_record r \<longleftrightarrow> (\<forall>kv \<in> set r. is_string (snd kv))"
  by (simp add: flat_record_def list_all_iff)

lemma flat_obj_set_any: "flat_record obj \<Longrightarrow> is_string v \<Longrightarrow> flat_record (obj_set obj k v)"
  unfolding flat_record_iff using set_obj_set [of obj k v] by fastforce

lemma flat_obj_set: "flat_record obj \<Longrightarrow> flat_record (obj_set obj k (JStr s))"
  by (simp add: flat_obj_set_any)

lemma flat_Object_assign:
  "flat_record t \<Longrightarrow> flat_record s \<Longrightarrow> flat_record (Object_assign t s)"
proof (induction s arbitrary: t)
  case Nil
  then show ?case by (simp add: Object_assign_def)
next
  case (Cons kv s)
  obtain k v where kv: "kv = (k, v)" by (cases kv)
  with Cons.prems(2) have v: "is_string v" and s: "flat_record s" by (auto simp: flat_record_def)
  from Cons.IH [of "obj_set t k v"] Cons.prems(1) v s kv show ?case
    by (simp add: Object_assign_def flat_obj_set_any)
qed

section \<open>Properties of the flattener\<close>

lemma flatten_flat:
  "(\<forall>r. flattenObject obj prefix = Inr r \<longrightarrow> flat_record r)"
  "(flat_record f \<longrightarrow> (\<forall>r. flattenEntries kvs prefix f = Inr r \<longrightarrow> flat_record r))"
  "(flat_record f' \<longrightarrow> (\<forall>r. flattenItems xs index newKey f' = Inr r \<longrightarrow> flat_record r))"
proof (induction obj prefix and kvs prefix f and xs index newKey f'
       rule: flattenObject_flattenEntries_flattenItems.induct)
  case (8 key "value" rest prefix flattened)
  show ?case
  proof (intro impI allI)
    fix r
    assume inv: "flat_record flattened"
      and res: "flattenEntries ((key, value) # rest) prefix flattened = Inr r"
    define newKey where "newKey = (if prefix \<noteq> [] then prefix @ ''_'' @ key else key)"
    show "flat_record r"
    proof (cases "value")
      case JNull
      with res have "flattenEntries rest prefix (obj_set flattened newKey (JStr [])) = Inr r"
        by (simp add: newKey_def)
      with "8.IH"(1) [OF newKey_def JNull] inv show ?thesis
        by (simp add: flat_obj_set)
    next
      case (JBool b)
      with res obtain s where s: "js_String value = Inr s"
        and rest: "flattenEntries rest prefix (obj_set flattened newKey (JStr s)) = Inr r"
        by (auto simp: newKey_def split: sum.splits)
      with "8.IH"(2) [OF newKey_def JBool s] inv show ?thesis
        by (simp add: flat_obj_set)
    next
      case (JNum n)
      with res obtain s where s: "js_String value = Inr s"
        and rest: "flattenEntries rest prefix (obj_set flattened newKey (JStr s)) = Inr r"
        by (auto simp: newKey_def split: sum.splits)
      with "8.IH"(3) [OF newKey_def JNum s] inv show ?thesis
        by (simp add: flat_obj_set)
    next
      case (JStr str)
      with res obtain s where s: "js_String value = Inr s"
        and rest: "flattenEntries rest prefix (obj_set flattened newKey (JStr s)) = Inr r"
        by (auto simp: newKey_def split: sum.splits)
      with "8.IH"(4) [OF newKey_def JStr s] inv show ?thesis
        by (simp add: flat_obj_set)
    next
      case (JArr xs)
      show ?thesis
      proof (cases "0 < length xs \<and> typeof_object (hd xs)")
        case True
        with res JArr obtain f2 where f2: "flattenItems xs 0 newKey flattened = Inr f2"
          and rest: "flattenEntries rest prefix f2 = Inr r"
          by (auto simp: newKey_def split: sum.splits)
        from "8.IH"(5) [OF newKey_def JArr True] inv f2 have "flat_record f2" by simp
        with "8.IH"(6) [OF newKey_def JArr True f2] rest show ?thesis by simp
      next
        case False
        with res JArr obtain strings
          where strings: "map_result (\<lambda>item. js_String (or_empty (Some item))) xs = Inr strings"
            and rest: "flattenEntries rest prefix (obj_set flattened newKey (JStr (join '', '' strings))) = Inr r"
          by (auto simp: newKey_def Let_def split: sum.splits)
        with "8.IH"(7) [OF newKey_def JArr False strings] inv show ?thesis
          by (simp add: flat_obj_set)
      qed
    next
      case (JObj kvs)
      with res obtain r1 where r1: "flattenObject (JObj kvs) newKey = Inr r1"
        and rest: "flattenEntries rest prefix (Object_assign flattened r1) = Inr r"
        by (auto simp: newKey_def split: sum.splits)
      from "8.IH"(8) [OF newKey_def JObj] r1 have "flat_record r1" by simp
      with inv have "flat_record (Object_assign flattened r1)"
        by (simp add: flat_Object_assign)
      with "8.IH"(9) [OF newKey_def JObj r1] rest show ?thesis by simp
    qed
  qed
next
  case (10 item items index newKey flattened)
  show ?case
  proof (intro impI allI)
    fix r
    assume inv: "flat_record flattened"
      and res: "flattenItems (item # items) index newKey flattened = Inr r"
    then obtain r1 where r1: "flattenObject item (newKey @ ''_'' @ string_of_nat index) = Inr r1"
      and rest: "flattenItems items (Suc index) newKey (Object_assign flattened r1) = Inr r"
      by (auto split: sum.splits)
    from "10.IH"(1) r1 have "flat_record r1" by simp
    with inv have "flat_record (Object_assign flattened r1)"
      by (simp add: flat_Object_assign)
    with "10.IH"(2) [OF r1] rest show "flat_record r" by simp
  qed
qed (simp_all add: flat_record_def)

text \<open>
  C5, against the code. A flat Record that owns the key \<^verbatim>\<open>__proto__\<close>, as \<^verbatim>\<open>JSON.parse\<close>
  makes it from the text \<^verbatim>\<open>{"__proto__":"x","a":"1"}\<close>, does not come back unchanged: the
  assignment \<^verbatim>\<open>flattened['__proto__'] = 'x'\<close> runs the setter inherited from
  \<^verbatim>\<open>Object.prototype\<close>, which ignores a string, and the returned Record has lost the key.
\<close>

theorem flattenObject_proto_key:
  "JSON_parse (''{'' @ quoted ''__proto__'' @ '':'' @ quoted ''x'' @ '','' @ quoted ''a'' @ '':'' @ quoted ''1'' @ ''}'')
     = Some (JObj [(''__proto__'', JStr ''x''), (''a'', JStr ''1'')])
   \<and> flat_record [(''__proto__'', JStr ''x''), (''a'', JStr ''1'')]
   \<and> flattenObject (JObj [(''__proto__'', JStr ''x''), (''a'', JStr ''1'')]) [] = Inr [(''a'', JStr ''1'')]"
  by code_simp

text \<open>
  C6, against the code. The elements of a sequence of scalars are joined as
  \<^verbatim>\<open>String(item || '')\<close>, so the falsy elements \<^verbatim>\<open>0\<close> and \<^verbatim>\<open>false\<close> lose their string
  representation: \<^verbatim>\<open>{"n":[0,1,false]}\<close> flattens to \<^verbatim>\<open>{n: ", 1, "}\<close>, not to
  \<^verbatim>\<open>{n: "0, 1, false"}\<close>. The same scalars as field values go through \<^verbatim>\<open>String(value)\<close> and
  keep it, and the example of the specification flattens as the specification says.
\<close>

theorem flattenObject_falsy_elements:
  "flattenObject (JObj [(''n'', JArr [JNum ''0'', JNum ''1'', JBool False])]) [] = Inr [(''n'', JStr '', 1, '')]
   \<and> flattenObject (JObj [(''n'', JNum ''0''), (''b'', JBool False)]) []
       = Inr [(''n'', JStr ''0''), (''b'', JStr ''false'')]
   \<and> flattenObject (JObj [(''user'', JObj [(''name'', JStr ''Alice''), (''tags'', JArr [JStr ''x'', JStr ''y''])])]) []
       = Inr [(''user_name'', JStr ''Alice''), (''user_tags'', JStr ''x, y'')]"
  by code_simp

text \<open>
  C9. The flattener is a total function, but it does not return a Record on every value:
  on a sequence whose first element is null the test \<^verbatim>\<open>typeof value[0] === 'object'\<close>
  holds, the elements are flattened as objects, and \<^verbatim>\<open>Object.entries(null)\<close> throws.
\<close>

theorem flattenObject_null_first_element:
  "flattenObject (JObj [(''a'', JArr [JNull])]) [] = Inl TypeError"
  by simp

section \<open>Properties of the merger\<close>

lemma removeDuplicates_filter_Cons:
  "removeDuplicates_filter seen (e # es) =
     (if dedup_key e \<in> seen then removeDuplicates_filter seen es
      else e # removeDuplicates_filter (insert (dedup_key e) seen) es)"
  by (simp add: dedup_key_def Let_def del: JSON_stringify.simps)

lemma removeDuplicates_filter_nth:
  "removeDuplicates_filter seen es =
     map (nth es) (filter (\<lambda>i. dedup_key (es ! i) \<notin> seen \<and> (\<forall>j < i. dedup_key (es ! j) \<noteq> dedup_key (es ! i)))
        [0..<length es])"
proof (induction es arbitrary: seen)
  case Nil
  then show ?case by simp
next
  case (Cons e es)
  let ?P = "\<lambda>seen es i. dedup_key (es ! i) \<notin> seen \<and> (\<forall>j < i. dedup_key (es ! j) \<noteq> dedup_key (es ! i))"
  have upt: "[0..<length (e # es)] = 0 # map Suc [0..<length es]"
    by (simp add: upt_conv_Cons map_Suc_upt del: upt_Suc)
  have shift: "map (nth (e # es)) (filter (?P seen (e # es)) (map Suc [0..<length es]))
      = map (nth es) (filter (\<lambda>i. ?P seen (e # es) (Suc i)) [0..<length es])"
    by (simp add: filter_map comp_def)
  have zero: "?P seen (e # es) 0 \<longleftrightarrow> dedup_key e \<notin> seen" by simp
  show ?case
  proof (cases "dedup_key e \<in> seen")
    case True
    have "filter (\<lambda>i. ?P seen (e # es) (Suc i)) [0..<length es] = filter (?P seen es) [0..<length es]"
      using True by (intro filter_cong refl) (auto simp: All_less_Suc2)
    with True Cons.IH [of seen] shift zero show ?thesis
      unfolding upt by (simp add: removeDuplicates_filter_Cons del: removeDuplicates_filter.simps)
  next
    case False
    have "filter (\<lambda>i. ?P seen (e # es) (Suc i)) [0..<length es]
        = filter (?P (insert (dedup_key e) seen) es) [0..<length es]"
      by (intro filter_cong refl) (auto simp: All_less_Suc2)
    with False Cons.IH [of "insert (dedup_key e) seen"] shift zero show ?thesis
      unfolding upt by (simp add: removeDuplicates_filter_Cons del: removeDuplicates_filter.simps)
  qed
qed

lemma removeDuplicates_filter_keys:
  "distinct (map dedup_key (removeDuplicates_filter seen es))
   \<and> dedup_key ` set (removeDuplicates_filter seen es) = dedup_key ` set es - seen"
proof (induction es arbitrary: seen)
  case Nil
  then show ?case by simp
next
  case (Cons e es)
  show ?case
  proof (cases "dedup_key e \<in> seen")
    case True
    with Cons.IH [of seen] show ?thesis
      by (auto simp: removeDuplicates_filter_Cons simp del: removeDuplicates_filter.simps)
  next
    case False
    with Cons.IH [of "insert (dedup_key e) seen"] show ?thesis
      by (auto simp: removeDuplicates_filter_Cons simp del: removeDuplicates_filter.simps)
  qed
qed

lemma set_removeDuplicates_filter: "set (removeDuplicates_filter seen es) \<subseteq> set es"
  by (induction es arbitrary: seen)
     (auto simp: removeDuplicates_filter_Cons simp del: removeDuplicates_filter.simps(2) split: if_splits)

text \<open>
  C2, against the code. \<^verbatim>\<open>normalized[key] = entry[key] || ''\<close> reads \<^verbatim>\<open>entry[key]\<close> up the
  prototype chain. Under a key of SchemaUnion that the source Record lacks and that names a
  member of \<^verbatim>\<open>Object.prototype\<close> the merger stores the inherited function, not the empty
  string. The text with the two blocks \<^verbatim>\<open>a: 1\<close> and \<^verbatim>\<open>constructor: x\<close> gives two such
  Records: merged, the first has the function \<^verbatim>\<open>Object\<close> under \<^verbatim>\<open>constructor\<close>, while the
  second has the empty string under \<^verbatim>\<open>a\<close>.
\<close>

theorem mergeEntries_inherited_member:
  "extractKeyValuePairs (''a: 1'' @ [CHR 0x0A, CHR 0x0A] @ ''constructor: x'')
     = [[(''a'', JStr ''1'')], [(''constructor'', JStr ''x'')]]
   \<and> mergeEntries [([(''a'', JStr ''1'')], ObjectPrototype), ([(''constructor'', JStr ''x'')], ObjectPrototype)]
     = [[(''a'', Val (JStr ''1'')), (''constructor'', Builtin ''Object.prototype.constructor'')],
        [(''a'', Val (JStr [])), (''constructor'', Val (JStr ''x''))]]
   \<and> parseDocument JSON_parse (WordDoc (Some (''a: 1'' @ [CHR 0x0A, CHR 0x0A] @ ''constructor: x'')))
     = Inr [[(''a'', Val (JStr ''1'')), (''constructor'', Builtin ''Object.prototype.constructor'')],
            [(''a'', Val (JStr [])), (''constructor'', Val (JStr ''x''))]]"
  by code_simp

text \<open>
  C3, as the code has it. Deduplication compares serialisations: the Records that survive
  have pairwise different \<^verbatim>\<open>JSON.stringify\<close> texts, every input Record has the text of a
  survivor, and the merger returns one Record for each survivor. Two Records with the same
  keys and values in a different key order, or that differ only by a key with an empty
  value, have different texts and both survive, although padding makes them equal.
\<close>

theorem removeDuplicates_by_serialisation:
  "distinct (map (\<lambda>e. JSON_stringify (JObj (fst e))) (removeDuplicates entries))
   \<and> (\<lambda>e. JSON_stringify (JObj (fst e))) ` set (removeDuplicates entries)
       = (\<lambda>e. JSON_stringify (JObj (fst e))) ` set entries
   \<and> length (mergeEntries entries) = length (removeDuplicates entries)"
proof -
  have eq: "(\<lambda>e. JSON_stringify (JObj (fst e))) = dedup_key" by (simp add: fun_eq_iff dedup_key_def)
  show ?thesis
    unfolding eq using removeDuplicates_filter_keys [of "{}" entries]
    by (simp add: removeDuplicates_def mergeEntries_def Let_def)
qed

theorem removeDuplicates_by_serialisation_witness:
  "distinct (map (\<lambda>e. JSON_stringify (JObj (fst e)))
      (removeDuplicates [([(''a'', JStr ''1'')], ObjectPrototype), ([(''a'', JStr ''1'')], ObjectPrototype)]))"
  using removeDuplicates_by_serialisation
    [of "[([(''a'', JStr ''1'')], ObjectPrototype), ([(''a'', JStr ''1'')], ObjectPrototype)]"]
  by (rule conjunct1)

theorem mergeEntries_key_order_counterexample:
  "mergeEntries [([(''a'', JStr ''1''), (''b'', JStr ''2'')], ObjectPrototype),
                 ([(''b'', JStr ''2''), (''a'', JStr ''1'')], ObjectPrototype)]
     = [[(''a'', Val (JStr ''1'')), (''b'', Val (JStr ''2''))],
        [(''a'', Val (JStr ''1'')), (''b'', Val (JStr ''2''))]]
   \<and> set [(''a'', JStr ''1''), (''b'', JStr ''2'')] = set [(''b'', JStr ''2''), (''a'', JStr ''1'')]"
proof
  show "mergeEntries [([(''a'', JStr ''1''), (''b'', JStr ''2'')], ObjectPrototype),
                 ([(''b'', JStr ''2''), (''a'', JStr ''1'')], ObjectPrototype)]
     = [[(''a'', Val (JStr ''1'')), (''b'', Val (JStr ''2''))],
        [(''a'', Val (JStr ''1'')), (''b'', Val (JStr ''2''))]]"
    by code_simp
  show "set [(''a'', JStr ''1''), (''b'', JStr ''2'')] = set [(''b'', JStr ''2''), (''a'', JStr ''1'')]"
    by auto
qed

text \<open>
  C10. Deduplication keeps exactly the entries whose serialisation no earlier entry has,
  in their input order: the earliest entry of each group with the same
  \<^verbatim>\<open>JSON.stringify\<close> text stays, every later one goes. The merger pads the survivors one by
  one, in that order.
\<close>

theorem mergeEntries_order:
  "removeDuplicates entries =
     map (nth entries)
       (filter (\<lambda>i. \<forall>j < i. JSON_stringify (JObj (fst (entries ! j))) \<noteq> JSON_stringify (JObj (fst (entries ! i))))
          [0..<length entries])
   \<and> mergeEntries entries
       = map (normalized_entry (allKeys_of (removeDuplicates entries))) (removeDuplicates entries)"
  using removeDuplicates_filter_nth [of "{}" entries]
  by (simp add: removeDuplicates_def mergeEntries_def Let_def dedup_key_def del: JSON_stringify.simps)

theorem mergeEntries_order_witness:
  "removeDuplicates [([(''a'', JStr ''1'')], ObjectPrototype), ([(''b'', JStr ''2'')], ObjectPrototype),
                     ([(''a'', JStr ''1'')], ObjectPrototype)]
     = map (nth [([(''a'', JStr ''1'')], ObjectPrototype), ([(''b'', JStr ''2'')], ObjectPrototype),
                 ([(''a'', JStr ''1'')], ObjectPrototype)])
         (filter (\<lambda>i. \<forall>j < i.
              JSON_stringify (JObj (fst ([([(''a'', JStr ''1'')], ObjectPrototype), ([(''b'', JStr ''2'')], ObjectPrototype),
                                          ([(''a'', JStr ''1'')], ObjectPrototype)] ! j)))
              \<noteq> JSON_stringify (JObj (fst ([([(''a'', JStr ''1'')], ObjectPrototype), ([(''b'', JStr ''2'')], ObjectPrototype),
                                               ([(''a'', JStr ''1'')], ObjectPrototype)] ! i))))
            [0..<length [([(''a'', JStr ''1'')], ObjectPrototype), ([(''b'', JStr ''2'')], ObjectPrototype),
                         ([(''a'', JStr ''1'')], ObjectPrototype)]])
   \<and> removeDuplicates [([(''a'', JStr ''1'')], ObjectPrototype), ([(''b'', JStr ''2'')], ObjectPrototype),
                       ([(''a'', JStr ''1'')], ObjectPrototype)]
     = [([(''a'', JStr ''1'')], ObjectPrototype), ([(''b'', JStr ''2'')], ObjectPrototype)]"
proof
  let ?E = "[([(''a'', JStr ''1'')], ObjectPrototype), ([(''b'', JStr ''2'')], ObjectPrototype),
             ([(''a'', JStr ''1'')], ObjectPrototype)]"
  show "removeDuplicates ?E
     = map (nth ?E)
         (filter (\<lambda>i. \<forall>j < i. JSON_stringify (JObj (fst (?E ! j))) \<noteq> JSON_stringify (JObj (fst (?E ! i))))
            [0..<length ?E])"
    using mergeEntries_order [of ?E] by (rule conjunct1)
  show "removeDuplicates ?E = [([(''a'', JStr ''1'')], ObjectPrototype), ([(''b'', JStr ''2'')], ObjectPrototype)]"
    by (simp add: removeDuplicates_def JSON_quote_def escape_char_def)
qed

section \<open>Properties of the key-value block extractor\<close>

lemma snd_line_step: "snd (line_step state line) = (snd state \<or> valid_pair line)"
  by (auto simp: line_step_def valid_pair_def Let_def split: option.splits)

lemma snd_foldl_line_step:
  "snd (foldl line_step state ls) = (snd state \<or> (\<exists>line \<in> set ls. valid_pair line))"
  by (induction ls arbitrary: state) (auto simp: snd_line_step)

lemma hasValidPair_iff: "snd (block_entry block) = (\<exists>line \<in> set (lines_of block). valid_pair line)"
  by (simp add: block_entry_def snd_foldl_line_step)

lemma foldl_blocks:
  "foldl (\<lambda>entries block.
            (case block_entry block of
               (currentEntry, hasValidPair) \<Rightarrow>
                 if hasValidPair then entries @ [currentEntry] else entries)) acc bs
     = acc @ map (\<lambda>b. fst (block_entry b)) (filter (\<lambda>b. snd (block_entry b)) bs)"
  by (induction bs arbitrary: acc) (auto split: prod.splits)

text \<open>
  C8. The extractor returns, in block order, the Record of each block that has a line with
  a valid pair (a line that matches and whose cleaned key and cleaned value are not
  empty), and nothing for the other blocks; on the text of the specification these are the
  two Records for Alice and Bob.
\<close>

theorem extractKeyValuePairs_blocks:
  "extractKeyValuePairs text =
     map (\<lambda>block. fst (block_entry block))
       (filter (\<lambda>block. \<exists>line \<in> set (lines_of block). valid_pair line) (blocks_of text))
   \<and> extractKeyValuePairs
        (''Name: Alice'' @ [CHR 0x0A] @ ''Age: 30'' @ [CHR 0x0A, CHR 0x0A] @ ''Name: Bob'' @ [CHR 0x0A] @ ''Age: 25'')
       = [[(''name'', JStr ''Alice''), (''age'', JStr ''30'')],
          [(''name'', JStr ''Bob''), (''age'', JStr ''25'')]]"
proof
  show "extractKeyValuePairs text =
     map (\<lambda>block. fst (block_entry block))
       (filter (\<lambda>block. \<exists>line \<in> set (lines_of block). valid_pair line) (blocks_of text))"
    unfolding extractKeyValuePairs_def foldl_blocks by (simp add: hasValidPair_iff)
  show "extractKeyValuePairs
        (''Name: Alice'' @ [CHR 0x0A] @ ''Age: 30'' @ [CHR 0x0A, CHR 0x0A] @ ''Name: Bob'' @ [CHR 0x0A] @ ''Age: 25'')
       = [[(''name'', JStr ''Alice''), (''age'', JStr ''30'')],
          [(''name'', JStr ''Bob''), (''age'', JStr ''25'')]]"
    by code_simp
qed

theorem extractKeyValuePairs_blocks_witness:
  "extractKeyValuePairs ''a: 1'' =
     map (\<lambda>block. fst (block_entry block))
       (filter (\<lambda>block. \<exists>line \<in> set (lines_of block). valid_pair line) (blocks_of ''a: 1''))"
  using extractKeyValuePairs_blocks [of "''a: 1''"] by (rule conjunct1)

section \<open>Properties of the table normalizer\<close>

text \<open>
  C7, against the code. A cell is stored as \<^verbatim>\<open>row[index] || ''\<close>, so the empty string
  stands not only for a missing position but for every falsy cell: the table
  \<^verbatim>\<open>[["count","flag"],[0,false]]\<close> normalizes to \<^verbatim>\<open>[{count: "", flag: ""}]\<close>. The same data as
  an object, \<^verbatim>\<open>[{"count":0,"flag":false}]\<close>, keep their values as \<^verbatim>\<open>"0"\<close> and \<^verbatim>\<open>"false"\<close>, and
  the example of the specification normalizes as the specification says.
\<close>

theorem normalizeData_falsy_cells:
  "normalizeData (JArr [JArr [JStr ''count'', JStr ''flag''], JArr [JNum ''0'', JBool False]])
     = Inr [([(''count'', JStr []), (''flag'', JStr [])], ObjectPrototype)]
   \<and> normalizeData (JArr [JObj [(''count'', JNum ''0''), (''flag'', JBool False)]])
     = Inr [([(''count'', JStr ''0''), (''flag'', JStr ''false'')], ObjectPrototype)]
   \<and> normalizeData (JArr [JArr [JStr ''name'', JStr ''age''], JArr [JStr ''Alice'', JStr ''30''],
                           JArr [JStr ''Bob'', JStr ''25'']])
     = Inr [([(''name'', JStr ''Alice''), (''age'', JStr ''30'')], ObjectPrototype),
            ([(''name'', JStr ''Bob''), (''age'', JStr ''25'')], ObjectPrototype)]"
  by code_simp

theorem normalizeData_falsy_cells_witness:
  "normalizeData (JArr [JArr [JStr ''count'', JStr ''flag''], JArr [JNum ''0'', JBool False]])
     = Inr [([(''count'', JStr []), (''flag'', JStr [])], ObjectPrototype)]"
  using normalizeData_falsy_cells by (rule conjunct1)

section \<open>Properties of the pipeline\<close>

lemma parseDocument_empty:
  "collectEntries jsonParse input = Inr [] \<Longrightarrow> parseDocument jsonParse input = Inl (Error remediation_message)"
  by (simp add: parseDocument_def)

lemma extractEntries_empty:
  "findJsonObjects jsonParse text = [] \<Longrightarrow> extractKeyValuePairs text = []
     \<Longrightarrow> extractEntries jsonParse text = Inr []"
  by (simp add: extractEntries_def)

text \<open>
  C1, as the code has it. When both extractors yield nothing, \<open>parseDocument\<close> returns no
  Records and raises the one error whose message is the four-line remediation text: for
  every Word document, and for every text file unless the whole text is valid JSON that
  normalizes to at least one Record (strict parsing comes first there, and the extractors
  do not run).
\<close>

theorem parseDocument_exhaustion:
  assumes "findJsonObjects jsonParse text = []" and "extractKeyValuePairs text = []"
  shows "parseDocument jsonParse (WordDoc (Some text)) = Inl (Error remediation_message)
    \<and> ((\<forall>jsonData entries. jsonParse text = Some jsonData \<longrightarrow> normalizeData jsonData = Inr entries
            \<longrightarrow> entries = [])
         \<longrightarrow> parseDocument jsonParse (RawText text) = Inl (Error remediation_message))
    \<and> length (filter (\<lambda>c. c = CHR 0x0A) remediation_message) = 3"
proof (intro conjI impI)
  show "parseDocument jsonParse (WordDoc (Some text)) = Inl (Error remediation_message)"
    using assms by (simp add: parseDocument_empty collectEntries_def extractEntries_empty)
next
  assume strict: "\<forall>jsonData entries. jsonParse text = Some jsonData
      \<longrightarrow> normalizeData jsonData = Inr entries \<longrightarrow> entries = []"
  have "collectEntries jsonParse (RawText text) = Inr []"
  proof (cases "jsonParse text")
    case None
    with assms show ?thesis by (simp add: collectEntries_def extractEntries_empty)
  next
    case (Some jsonData)
    show ?thesis
    proof (cases "normalizeData jsonData")
      case (Inl e)
      with Some assms show ?thesis by (simp add: collectEntries_def extractEntries_empty)
    next
      case (Inr entries)
      with Some strict have "entries = []" by simp
      with Some Inr show ?thesis by (simp add: collectEntries_def)
    qed
  qed
  then show "parseDocument jsonParse (RawText text) = Inl (Error remediation_message)"
    by (rule parseDocument_empty)
next
  show "length (filter (\<lambda>c. c = CHR 0x0A) remediation_message) = 3"
    by (simp add: remediation_message_def)
qed

theorem parseDocument_exhaustion_witness:
  "parseDocument JSON_parse (WordDoc (Some ''A single sentence with no structure.''))
     = Inl (Error remediation_message)
   \<and> parseDocument JSON_parse (RawText ''A single sentence with no structure.'')
     = Inl (Error remediation_message)"
proof -
  have h1: "findJsonObjects JSON_parse ''A single sentence with no structure.'' = []" by code_simp
  have h2: "extractKeyValuePairs ''A single sentence with no structure.'' = []" by code_simp
  have h3: "JSON_parse ''A single sentence with no structure.'' = None" by code_simp
  from parseDocument_exhaustion [OF h1 h2] h3 show ?thesis by simp
qed

theorem parseDocument_scalar_json_counterexample:
  "findJsonObjects JSON_parse ''null'' = [] \<and> extractKeyValuePairs ''null'' = []
   \<and> parseDocument JSON_parse (RawText ''null'') = Inr [[(''value'', Val (JStr ''null''))]]"
proof (intro conjI)
  show "findJsonObjects JSON_parse ''null'' = []" by code_simp
  show "extractKeyValuePairs ''null'' = []" by code_simp
  show "parseDocument JSON_parse (RawText ''null'') = Inr [[(''value'', Val (JStr ''null''))]]" by code_simp
qed

lemma map_result_all:
  "map_result f xs = Inr ys \<Longrightarrow> \<forall>x \<in> set xs. \<forall>y. f x = Inr y \<longrightarrow> P y \<Longrightarrow> \<forall>y \<in> set ys. P y"
  by (induction xs arbitrary: ys) (auto split: sum.splits)

lemma normalizeData_flat:
  assumes "\<not> is_tabular data" and "normalizeData data = Inr es"
  shows "\<forall>e \<in> set es. plain_flat e"
proof -
  let ?f = "\<lambda>entry. if \<not> typeof_object entry \<or> entry = JNull
              then (case js_String entry of
                      Inl e \<Rightarrow> Inl e
                    | Inr s \<Rightarrow> Inr ([(''value'', JStr s)], ObjectPrototype))
              else (case flattenObject entry [] of
                      Inl e \<Rightarrow> Inl e
                    | Inr flattened \<Rightarrow> Inr (flattened, ObjectPrototype))"
  have step: "plain_flat y" if "?f x = Inr y" for x y
    using that flatten_flat(1) [of x "[]"]
    by (auto simp: plain_flat_def flat_record_def split: if_splits sum.splits)
  have "\<exists>xs. map_result ?f xs = Inr es"
  proof (cases data)
    case (JArr ys)
    show ?thesis
    proof (cases ys)
      case Nil
      with JArr assms(2) have "map_result ?f [] = Inr es" by (simp add: normalizeData_def)
      then show ?thesis ..
    next
      case (Cons h rows)
      with JArr assms(1) have h: "is_tabular (JArr (h # rows)) = False" by simp
      have "map_result ?f ys = Inr es"
        using JArr Cons assms(2) h by (cases h) (simp_all add: normalizeData_def)
      then show ?thesis ..
    qed
  next
    case JNull
    with assms(2) have "map_result ?f [data] = Inr es" by (simp add: normalizeData_def)
    then show ?thesis ..
  next
    case (JBool b)
    with assms(2) have "map_result ?f [data] = Inr es" by (simp add: normalizeData_def)
    then show ?thesis ..
  next
    case (JNum n)
    with assms(2) have "map_result ?f [data] = Inr es" by (simp add: normalizeData_def)
    then show ?thesis ..
  next
    case (JStr s)
    with assms(2) have "map_result ?f [data] = Inr es" by (simp add: normalizeData_def)
    then show ?thesis ..
  next
    case (JObj kvs)
    with assms(2) have "map_result ?f [data] = Inr es" by (simp add: normalizeData_def)
    then show ?thesis ..
  qed
  then obtain xs where xs: "map_result ?f xs = Inr es" ..
  from map_result_all [OF xs, of plain_flat] step show ?thesis by blast
qed

lemma line_step_flat: "flat_record (fst state) \<Longrightarrow> flat_record (fst (line_step state line))"
  by (auto simp: line_step_def Let_def flat_obj_set split: option.splits)

lemma foldl_line_step_flat:
  "flat_record (fst state) \<Longrightarrow> flat_record (fst (foldl line_step state ls))"
  by (induction ls arbitrary: state) (auto simp: line_step_flat)

lemma extractKeyValuePairs_flat: "\<forall>e \<in> set (extractKeyValuePairs text). flat_record e"
proof -
  have "flat_record (fst (block_entry b))" for b
    unfolding block_entry_def by (rule foldl_line_step_flat) (simp add: flat_record_def)
  then show ?thesis
    by (auto simp: extractKeyValuePairs_def foldl_blocks)
qed

lemma extractEntries_flat:
  assumes "\<forall>data. fragments jsonParse text = Some data \<longrightarrow> \<not> is_tabular data"
    and "extractEntries jsonParse text = Inr es"
  shows "\<forall>e \<in> set es. plain_flat e"
proof -
  let ?js = "findJsonObjects jsonParse text"
  obtain es1 where es1: "(if length ?js > 0 then normalizeData (JArr ?js) else Inr []) = Inr es1"
    and es: "es = (if length (extractKeyValuePairs text) > 0
                   then es1 @ map (\<lambda>kvEntry. (kvEntry, ObjectPrototype)) (extractKeyValuePairs text) else es1)"
    using assms(2) by (auto simp: extractEntries_def Let_def split: sum.splits)
  have "\<forall>e \<in> set es1. plain_flat e"
  proof (cases "length ?js > 0")
    case True
    with es1 have n: "normalizeData (JArr ?js) = Inr es1" by simp
    from True assms(1) have "\<not> is_tabular (JArr ?js)" by (simp add: fragments_def)
    then show ?thesis using n by (rule normalizeData_flat)
  next
    case False
    with es1 show ?thesis by auto
  qed
  with es extractKeyValuePairs_flat [of "text"] show ?thesis by (auto simp: plain_flat_def)
qed

lemma collectEntries_flat:
  assumes "\<not> tabular_input jsonParse input" and "collectEntries jsonParse input = Inr es"
  shows "\<forall>e \<in> set es. plain_flat e"
proof (cases input)
  case (WordDoc t)
  show ?thesis
  proof (cases t)
    case None
    with WordDoc assms(2) show ?thesis by (simp add: collectEntries_def)
  next
    case (Some body)
    with WordDoc assms(1) have "\<forall>data. fragments jsonParse body = Some data \<longrightarrow> \<not> is_tabular data"
      by (auto simp: tabular_input_def normalizedData_def split: option.splits)
    moreover from Some WordDoc assms(2) have "extractEntries jsonParse body = Inr es"
      by (simp add: collectEntries_def)
    ultimately show ?thesis by (rule extractEntries_flat)
  qed
next
  case (RawText body)
  show ?thesis
  proof (cases "jsonParse body")
    case None
    with RawText assms(1) have "\<forall>data. fragments jsonParse body = Some data \<longrightarrow> \<not> is_tabular data"
      by (auto simp: tabular_input_def normalizedData_def split: option.splits)
    moreover from None RawText assms(2) have "extractEntries jsonParse body = Inr es"
      by (simp add: collectEntries_def)
    ultimately show ?thesis by (rule extractEntries_flat)
  next
    case (Some jsonData)
    show ?thesis
    proof (cases "normalizeData jsonData")
      case (Inl e)
      with Some RawText assms(1) have "\<forall>data. fragments jsonParse body = Some data \<longrightarrow> \<not> is_tabular data"
        by (auto simp: tabular_input_def normalizedData_def split: option.splits)
      moreover from Inl Some RawText assms(2) have "extractEntries jsonParse body = Inr es"
        by (simp add: collectEntries_def)
      ultimately show ?thesis by (rule extractEntries_flat)
    next
      case (Inr es')
      with Some RawText assms(1) have "\<not> is_tabular jsonData"
        by (auto simp: tabular_input_def normalizedData_def split: option.splits)
      moreover from Inr Some RawText assms(2) have "normalizeData jsonData = Inr es"
        by (simp add: collectEntries_def)
      ultimately show ?thesis by (rule normalizeData_flat)
    qed
  qed
qed

lemma plain_flat_read:
  assumes "plain_flat e" and "k \<notin> set object_prototype_names"
  shows "\<exists>s. or_empty_value (js_get e k) = Val (JStr s)"
proof (cases "map_of (fst e) k")
  case None
  from assms(2) have "k \<noteq> ''__proto__''" by (auto simp: object_prototype_names_def)
  with None assms show ?thesis
    by (simp add: js_get_def plain_flat_def inherited_from_Object_def)
next
  case (Some v)
  then have "(k, v) \<in> set (fst e)" by (rule map_of_SomeD)
  with assms(1) have "is_string v" by (auto simp: plain_flat_def flat_record_iff)
  then obtain s where "v = JStr s" by (cases v) auto
  with Some show ?thesis by (simp add: js_get_def)
qed

lemma set_value_assign: "set (value_assign normalized k v) \<subseteq> insert (k, v) (set normalized)"
  using set_own_set [of normalized k v] by (auto simp: value_assign_def)

lemma fold_value_assign:
  "kv \<in> set (fold (\<lambda>key normalized. value_assign normalized key (f key)) ks acc)
     \<Longrightarrow> kv \<in> set acc \<or> snd kv = f (fst kv)"
proof (induction ks arbitrary: acc)
  case Nil
  then show ?case by simp
next
  case (Cons k ks)
  from Cons.IH [of "value_assign acc k (f k)"] Cons.prems
  have "kv \<in> set (value_assign acc k (f k)) \<or> snd kv = f (fst kv)" by simp
  with set_value_assign [of acc k "f k"] show ?case by auto
qed

lemma normalized_entry_value:
  "kv \<in> set (normalized_entry allKeys entry) \<Longrightarrow> snd kv = or_empty_value (js_get entry (fst kv))"
  using fold_value_assign [of kv "\<lambda>key. or_empty_value (js_get entry key)" allKeys "[]"]
  by (simp add: normalized_entry_def)

text \<open>
  C4, as the code has it. When the data that are normalized are not tabular, every value of
  every Record \<open>parseDocument\<close> returns is a string (never null, an object, a sequence, a
  number or a boolean) under every key that does not name a member of
  \<^verbatim>\<open>Object.prototype\<close>. The strings of flattened JSON are not trimmed, and a cell of tabular
  data is stored without conversion to a string. What stands under a key that names a
  member of \<^verbatim>\<open>Object.prototype\<close> is the matter of C2.
\<close>

theorem parseDocument_values_strings:
  assumes "parseDocument jsonParse input = Inr out"
    and "\<not> tabular_input jsonParse input"
  shows "\<forall>r \<in> set out. \<forall>kv \<in> set r.
           fst kv \<notin> set object_prototype_names \<longrightarrow> (\<exists>s. snd kv = Val (JStr s))"
proof (intro ballI impI)
  fix r kv
  assume r: "r \<in> set out" and kv: "kv \<in> set r" and k: "fst kv \<notin> set object_prototype_names"
  from assms(1) obtain es where es: "collectEntries jsonParse input = Inr es" and out: "out = mergeEntries es"
    by (auto simp: parseDocument_def split: sum.splits if_splits)
  from assms(2) es have flat: "\<forall>e \<in> set es. plain_flat e" by (rule collectEntries_flat)
  from r out obtain e where e: "e \<in> set (removeDuplicates es)"
    and r_def: "r = normalized_entry (allKeys_of (removeDuplicates es)) e"
    by (auto simp: mergeEntries_def Let_def)
  from e set_removeDuplicates_filter [of "{}" es] have "e \<in> set es"
    by (auto simp: removeDuplicates_def)
  with flat have "plain_flat e" by simp
  from plain_flat_read [OF this k] obtain s where "or_empty_value (js_get e (fst kv)) = Val (JStr s)" ..
  moreover from kv r_def have "snd kv = or_empty_value (js_get e (fst kv))"
    by (simp add: normalized_entry_value)
  ultimately show "\<exists>s. snd kv = Val (JStr s)" by simp
qed

theorem parseDocument_values_strings_witness:
  "parseDocument JSON_parse (RawText (''{'' @ quoted ''a'' @ '':'' @ quoted '' x '' @ ''}''))
     = Inr [[(''a'', Val (JStr '' x ''))]]
   \<and> (\<exists>s. snd (''a'', Val (JStr '' x '')) = Val (JStr s))"
proof -
  let ?text = "''{'' @ quoted ''a'' @ '':'' @ quoted '' x '' @ ''}''"
  have h1: "parseDocument JSON_parse (RawText ?text) = Inr [[(''a'', Val (JStr '' x ''))]]" by code_simp
  have h2: "\<not> tabular_input JSON_parse (RawText ?text)" by code_simp
  have records: "\<forall>r \<in> set [[(''a'', Val (JStr '' x ''))]]. \<forall>kv \<in> set r.
      fst kv \<notin> set object_prototype_names \<longrightarrow> (\<exists>s. snd kv = Val (JStr s))"
    using parseDocument_values_strings [OF h1 h2] .
  have "\<forall>kv \<in> set [(''a'', Val (JStr '' x ''))].
      fst kv \<notin> set object_prototype_names \<longrightarrow> (\<exists>s. snd kv = Val (JStr s))"
    using records by (rule bspec) simp
  then have "fst (''a'', Val (JStr '' x '')) \<notin> set object_prototype_names
      \<longrightarrow> (\<exists>s. snd (''a'', Val (JStr '' x '')) = Val (JStr s))"
    by (rule bspec) simp
  moreover have "fst (''a'', Val (JStr '' x '')) \<notin> set object_prototype_names"
    by (simp add: object_prototype_names_def)
  ultimately have "\<exists>s. snd (''a'', Val (JStr '' x '')) = Val (JStr s)" by (rule mp)
  with h1 show ?thesis by (rule conjI)
qed

theorem parseDocument_values_counterexample:
  "parseDocument JSON_parse (RawText (''[['' @ quoted ''a'' @ ''],[7]]''))
     = Inr [[(''a'', Val (JNum ''7''))]]
   \<and> parseDocument JSON_parse (RawText (''{'' @ quoted ''a'' @ '':'' @ quoted '' x '' @ ''}''))
     = Inr [[(''a'', Val (JStr '' x ''))]]
   \<and> trim '' x '' \<noteq> '' x ''"
proof (intro conjI)
  show "parseDocument JSON_parse (RawText (''[['' @ quoted ''a'' @ ''],[7]]'')) = Inr [[(''a'', Val (JNum ''7''))]]"
    by code_simp
  show "parseDocument JSON_parse (RawText (''{'' @ quoted ''a'' @ '':'' @ quoted '' x '' @ ''}''))
     = Inr [[(''a'', Val (JStr '' x ''))]]"
    by code_simp
  show "trim '' x '' \<noteq> '' x ''" by code_simp
qed

end
